theory Spec2Isabelle
  imports
    Complex_Main
    "HOL-Library.Sublist"
    "HOL-Library.Char_ord"
    "HOL-Library.List_Lexorder"
    "HOL-Library.Multiset"
begin

section \<open>Python values shared by the services\<close>

subsection \<open>Insertion-ordered dictionaries\<close>

text \<open>
  A Python \<open>dict\<close> keeps its keys in insertion order: assigning to a key that is
  present replaces the value where it stands, assigning to a new key appends it, and
  \<open>del\<close> removes the key. Iteration (\<open>items()\<close>, \<open>values()\<close>) follows that order, which
  \<open>confirm_ride\<close> and \<open>FAQService.search\<close> depend on, so a dictionary is an
  association list.
\<close>

type_synonym ('k, 'v) pydict = "('k \<times> 'v) list"

definition dict_get :: "('k, 'v) pydict \<Rightarrow> 'k \<Rightarrow> 'v option" where
  "dict_get d k = map_of d k"

fun dict_set :: "('k, 'v) pydict \<Rightarrow> 'k \<Rightarrow> 'v \<Rightarrow> ('k, 'v) pydict" where
  "dict_set [] k v = [(k, v)]"
| "dict_set ((k', v') # d) k v =
     (if k' = k then (k, v) # d else (k', v') # dict_set d k v)"

definition dict_del :: "('k, 'v) pydict \<Rightarrow> 'k \<Rightarrow> ('k, 'v) pydict" where
  "dict_del d k = filter (\<lambda>kv. fst kv \<noteq> k) d"

subsection \<open>Decimal rendering of a natural number (\<open>str(i)\<close>)\<close>

definition digit_char :: "nat \<Rightarrow> char" where
  "digit_char d = ''0123456789'' ! d"

fun str_nat :: "nat \<Rightarrow> string" where
  "str_nat n = (if n < 10 then [digit_char n] else str_nat (n div 10) @ [digit_char (n mod 10)])"

declare str_nat.simps [simp del]

subsection \<open>Exceptions\<close>

text \<open>
  The exceptions the modelled code raises or lets through. \<open>InvalidFilterError\<close>
  carries its three attributes; the others carry their message. \<open>OtherError\<close> stands
  for any further subclass of \<open>Exception\<close> raised by code outside the model (the
  embedding service, a serializer).
\<close>

datatype py_exn =
    CarNotFoundError string
  | InvalidFilterError string string "string list"
  | ValueError string
  | IndexError string
  | AxisError string
  | OtherError string

subsection \<open>List slicing\<close>

text \<open>\<open>xs[:k]\<close>: a negative \<open>k\<close> counts from the end.\<close>

definition py_slice_to :: "'a list \<Rightarrow> int \<Rightarrow> 'a list" where
  "py_slice_to xs k =
     (if 0 \<le> k then take (nat k) xs else take (length xs - nat (- k)) xs)"

subsection \<open>Floating-point values of numpy\<close>

text \<open>
  A \<open>float64\<close> is a real number or one of the special values; rounding and overflow
  of finite arithmetic are left out. What is kept is what numpy does where the
  mathematics is undefined: a division by zero does not raise, it yields an infinity or,
  for \<open>0 / 0\<close>, NaN, and NaN and the infinities propagate through products, sums and
  comparisons as IEEE 754 prescribes (every comparison with NaN is false). The only
  divisors of the code are norms, so a zero divisor is the positive zero. Square roots,
  products and quotients are exact: a score that is proved equal to a number here equals
  it in the code up to the rounding of \<open>float64\<close>, and nothing is said about vectors
  whose squares overflow or underflow.
\<close>

datatype npfloat = Fin real | PInf | NInf | NaN

definition np_div :: "real \<Rightarrow> real \<Rightarrow> npfloat" where
  "np_div x y =
     (if y \<noteq> 0 then Fin (x / y)
      else if x = 0 then NaN
      else if 0 < x then PInf else NInf)"

fun np_mul :: "npfloat \<Rightarrow> npfloat \<Rightarrow> npfloat" where
  "np_mul NaN _ = NaN"
| "np_mul _ NaN = NaN"
| "np_mul (Fin a) (Fin b) = Fin (a * b)"
| "np_mul (Fin a) PInf = (if a = 0 then NaN else if 0 < a then PInf else NInf)"
| "np_mul (Fin a) NInf = (if a = 0 then NaN else if 0 < a then NInf else PInf)"
| "np_mul PInf (Fin b) = (if b = 0 then NaN else if 0 < b then PInf else NInf)"
| "np_mul NInf (Fin b) = (if b = 0 then NaN else if 0 < b then NInf else PInf)"
| "np_mul PInf PInf = PInf"
| "np_mul PInf NInf = NInf"
| "np_mul NInf PInf = NInf"
| "np_mul NInf NInf = PInf"

fun np_add :: "npfloat \<Rightarrow> npfloat \<Rightarrow> npfloat" where
  "np_add NaN _ = NaN"
| "np_add _ NaN = NaN"
| "np_add (Fin a) (Fin b) = Fin (a + b)"
| "np_add (Fin a) PInf = PInf"
| "np_add (Fin a) NInf = NInf"
| "np_add PInf (Fin b) = PInf"
| "np_add NInf (Fin b) = NInf"
| "np_add PInf PInf = PInf"
| "np_add NInf NInf = NInf"
| "np_add PInf NInf = NaN"
| "np_add NInf PInf = NaN"

text \<open>\<open>a > b\<close> on floats.\<close>

fun np_gt :: "npfloat \<Rightarrow> npfloat \<Rightarrow> bool" where
  "np_gt NaN _ = False"
| "np_gt _ NaN = False"
| "np_gt (Fin a) (Fin b) = (b < a)"
| "np_gt (Fin a) PInf = False"
| "np_gt (Fin a) NInf = True"
| "np_gt PInf PInf = False"
| "np_gt PInf _ = True"
| "np_gt NInf _ = False"

definition np_lt :: "npfloat \<Rightarrow> npfloat \<Rightarrow> bool" where
  "np_lt a b = np_gt b a"

text \<open>\<open>a >= b\<close> on floats: false when either side is NaN.\<close>

definition np_ge :: "npfloat \<Rightarrow> npfloat \<Rightarrow> bool" where
  "np_ge a b = (a \<noteq> NaN \<and> b \<noteq> NaN \<and> \<not> np_gt b a)"

text \<open>The built-in \<open>max(a, b)\<close>: \<open>b\<close> if \<open>b > a\<close>, else \<open>a\<close>.\<close>

definition py_max :: "npfloat \<Rightarrow> npfloat \<Rightarrow> npfloat" where
  "py_max a b = (if np_gt b a then b else a)"

text \<open>\<open>np.linalg.norm\<close> of a vector, and of each row of a matrix (\<open>axis=1\<close>).\<close>

definition np_norm :: "real list \<Rightarrow> real" where
  "np_norm v = sqrt (sum_list (map (\<lambda>x. x * x) v))"

text \<open>\<open>v / n\<close>, elementwise.\<close>

definition np_div_vec :: "real list \<Rightarrow> real \<Rightarrow> npfloat list" where
  "np_div_vec v n = map (\<lambda>x. np_div x n) v"

text \<open>\<open>np.dot\<close> of two vectors of the same length.\<close>

definition np_dot :: "npfloat list \<Rightarrow> npfloat list \<Rightarrow> npfloat" where
  "np_dot a b = foldl np_add (Fin 0) (map2 np_mul a b)"

definition dot_real :: "real list \<Rightarrow> real list \<Rightarrow> real" where
  "dot_real a b = sum_list (map2 (*) a b)"

section \<open>core/state.py: the OTP sessions\<close>

text \<open>
  \<open>datetime.now()\<close> is an input of every operation: a time stamp is a number of
  microseconds (the resolution of \<open>datetime\<close>), and \<open>timedelta(minutes=m)\<close> is
  \<open>m * 60000000\<close> of them. The clock is not assumed to be monotonic.
\<close>

record session =
  s_otp :: string
  s_name :: string
  s_timestamp :: int

type_synonym otp_state = "(string, session) pydict"

definition timedelta_minutes :: "int \<Rightarrow> int" where
  "timedelta_minutes m = m * 60000000"

definition store_otp :: "otp_state \<Rightarrow> int \<Rightarrow> string \<Rightarrow> string \<Rightarrow> string \<Rightarrow> otp_state" where
  "store_otp st now phone otp name =
     dict_set st phone \<lparr>s_otp = otp, s_name = name, s_timestamp = now\<rparr>"

definition verify_otp ::
  "otp_state \<Rightarrow> int \<Rightarrow> string \<Rightarrow> string \<Rightarrow> (bool \<times> string option) \<times> otp_state" where
  "verify_otp st now phone otp =
     (case dict_get st phone of
        None \<Rightarrow> ((False, None), st)
      | Some stored \<Rightarrow>
          if now - s_timestamp stored > timedelta_minutes 10
          then ((False, None), dict_del st phone)
          else if s_otp stored = otp
          then ((True, Some (s_name stored)), dict_del st phone)
          else ((False, None), st))"

definition cleanup_expired :: "otp_state \<Rightarrow> int \<Rightarrow> int \<Rightarrow> otp_state" where
  "cleanup_expired st now expiry_minutes =
     (let expired = map fst (filter (\<lambda>(phone, data).
                       now - s_timestamp data > timedelta_minutes expiry_minutes) st)
      in foldl dict_del st expired)"

text \<open>A run of the state manager: any sequence of its three operations, from the empty store.\<close>

datatype otp_op =
    Store int string string string
  | Verify int string string
  | Cleanup int int

fun apply_otp_op :: "otp_state \<Rightarrow> otp_op \<Rightarrow> otp_state" where
  "apply_otp_op st (Store now phone otp name) = store_otp st now phone otp name"
| "apply_otp_op st (Verify now phone otp) = snd (verify_otp st now phone otp)"
| "apply_otp_op st (Cleanup now expiry_minutes) = cleanup_expired st now expiry_minutes"

definition run_otp_ops :: "otp_op list \<Rightarrow> otp_state" where
  "run_otp_ops ops = foldl apply_otp_op [] ops"

definition sessions_of :: "otp_state \<Rightarrow> string \<Rightarrow> session list" where
  "sessions_of st phone = map snd (filter (\<lambda>kv. fst kv = phone) st)"

section \<open>services/faq_service.py\<close>

subsection \<open>Embeddings and cosine similarity\<close>

text \<open>
  A matrix is the list of its rows. \<open>np.array\<close> of an empty list is the
  one-dimensional empty array, so the empty list of rows stands for that array, on which
  \<open>np.linalg.norm(..., axis=1)\<close> raises \<open>AxisError\<close>.

  \<open>api\<close> is the call \<open>openai.embeddings.create\<close> on one batch of texts: the rows it
  returns, or the exception it raises. \<open>get_embeddings\<close> calls it on batches of 50
  texts, the default every caller uses.
\<close>

type_synonym embed_api = "string list \<Rightarrow> py_exn + real list list"

function get_embeddings :: "embed_api \<Rightarrow> string list \<Rightarrow> py_exn + real list list" where
  "get_embeddings api texts =
     (if texts = [] then Inr []
      else case api (take 50 texts) of
             Inl e \<Rightarrow> Inl e
           | Inr rows \<Rightarrow>
               (case get_embeddings api (drop 50 texts) of
                  Inl e \<Rightarrow> Inl e
                | Inr later \<Rightarrow> Inr (rows @ later)))"
  by pat_completeness auto
termination
  by (relation "measure (\<lambda>(api, texts). length texts)") auto

declare get_embeddings.simps [simp del]

definition cosine_similarity :: "real list \<Rightarrow> real list \<Rightarrow> py_exn + npfloat" where
  "cosine_similarity a b =
     (if length a \<noteq> length b then Inl (ValueError ''shapes not aligned'')
      else Inr (np_div (dot_real a b) (np_norm a * np_norm b)))"

definition cosine_similarity_batch :: "real list \<Rightarrow> real list list \<Rightarrow> py_exn + npfloat list" where
  "cosine_similarity_batch query_embedding embeddings =
     (let query_norm = np_div_vec query_embedding (np_norm query_embedding)
      in if embeddings = [] then Inl (AxisError ''axis 1 is out of bounds for array of dimension 1'')
         else let embeddings_norm = map (\<lambda>row. np_div_vec row (np_norm row)) embeddings
              in if \<exists>row \<in> set embeddings. length row \<noteq> length query_embedding
                 then Inl (ValueError ''shapes not aligned'')
                 else Inr (map (\<lambda>row. np_dot row query_norm) embeddings_norm))"

subsection \<open>The service\<close>

text \<open>
  A raw record is an entry of \<open>consolidated_faqs.json\<close>: each of the four keys may be
  missing, and \<open>faq.get(key, "")\<close> supplies the empty string then.
\<close>

record raw_faq =
  raw_question :: "string option"
  raw_answer :: "string option"
  raw_category :: "string option"
  raw_subcategory :: "string option"

record faq =
  faq_id :: string
  faq_question :: string
  faq_answer :: string
  faq_category :: string
  faq_subcategory :: string

record qna_result =
  r_id :: string
  r_question :: string
  r_answer :: string
  r_score :: npfloat
  r_category :: string
  r_subcategory :: string

record faq_service =
  fs_faqs :: "faq list"
  fs_question_embeddings :: "real list list"
  fs_answer_embeddings :: "real list list"

definition get_or_empty :: "string option \<Rightarrow> string" where
  "get_or_empty v = (case v of None \<Rightarrow> [] | Some s \<Rightarrow> s)"

text \<open>The loop \<open>for i, faq in enumerate(faq_data)\<close> of \<open>__init__\<close>.\<close>

definition add_ids :: "raw_faq list \<Rightarrow> faq list" where
  "add_ids faq_data =
     map (\<lambda>(i, f). \<lparr>faq_id = str_nat i,
                     faq_question = get_or_empty (raw_question f),
                     faq_answer = get_or_empty (raw_answer f),
                     faq_category = get_or_empty (raw_category f),
                     faq_subcategory = get_or_empty (raw_subcategory f)\<rparr>)
         (enumerate 0 faq_data)"

subsection \<open>The embedding cache\<close>

datatype json =
    JNull
  | JBool bool
  | JNumber real
  | JString string
  | JArray "json list"
  | JObject "(string \<times> json) list"

text \<open>
  The cache file: absent, present but not readable as JSON (\<open>open\<close> or \<open>json.load\<close>
  raises), or present with the value \<open>json.load\<close> returns.
\<close>

datatype cache_file = Absent | Unreadable | Content json

definition cache_exists :: "cache_file \<Rightarrow> bool" where
  "cache_exists file = (file \<noteq> Absent)"

text \<open>
  \<open>len(v)\<close> on a loaded JSON value: \<open>None\<close> where it raises \<open>TypeError\<close>. An object
  counts its keys, which \<open>json.load\<close> has made distinct.
\<close>

fun py_len :: "json \<Rightarrow> nat option" where
  "py_len (JArray xs) = Some (length xs)"
| "py_len (JObject kvs) = Some (length kvs)"
| "py_len (JString s) = Some (length s)"
| "py_len _ = None"

text \<open>
  \<open>_validate_cache\<close>. Every exception inside it is caught and turns into \<open>False\<close>:
  an unreadable file, a top-level value without \<open>keys()\<close>, a value without a length.
\<close>

definition validate_cache :: "faq list \<Rightarrow> cache_file \<Rightarrow> bool" where
  "validate_cache current_faqs file =
     (case file of
        Content (JObject cache_data) \<Rightarrow>
          if \<not> {''questions'', ''answers'', ''metadata''} \<subseteq> fst ` set cache_data then False
          else (case (dict_get cache_data ''questions'', dict_get cache_data ''answers'',
                      dict_get cache_data ''metadata'') of
                  (Some q, Some a, Some m) \<Rightarrow>
                    (case (py_len q, py_len a, py_len m) of
                       (Some n_questions, Some n_answers, Some n_metadata) \<Rightarrow>
                         if n_questions \<noteq> n_answers \<or> n_questions \<noteq> n_metadata then False
                         else if n_metadata \<noteq> length current_faqs then False
                         else True
                     | _ \<Rightarrow> False)
                | _ \<Rightarrow> False)
      | _ \<Rightarrow> False)"

text \<open>
  \<open>np.array\<close> on a loaded JSON value that is a list of equally long lists of numbers;
  \<open>tolist()\<close> is its inverse. Other values are outside the model and map to an error.
\<close>

fun json_number :: "json \<Rightarrow> real option" where
  "json_number (JNumber x) = Some x"
| "json_number _ = None"

fun json_row :: "json \<Rightarrow> real list option" where
  "json_row (JArray xs) =
     (if \<forall>x \<in> set xs. json_number x \<noteq> None then Some (map (\<lambda>x. the (json_number x)) xs) else None)"
| "json_row _ = None"

definition np_array :: "json \<Rightarrow> py_exn + real list list" where
  "np_array j =
     (case j of
        JArray rows \<Rightarrow>
          if (\<forall>r \<in> set rows. json_row r \<noteq> None)
             \<and> (\<forall>r \<in> set rows. \<forall>r' \<in> set rows. map_option length (json_row r) = map_option length (json_row r'))
          then Inr (map (\<lambda>r. the (json_row r)) rows)
          else Inl (ValueError ''not a matrix of numbers'')
      | _ \<Rightarrow> Inl (ValueError ''not a matrix of numbers''))"

definition tolist :: "real list list \<Rightarrow> json" where
  "tolist m = JArray (map (\<lambda>row. JArray (map JNumber row)) m)"

definition faq_json :: "faq \<Rightarrow> json" where
  "faq_json f = JObject [(''id'', JString (faq_id f)), (''question'', JString (faq_question f)),
                         (''answer'', JString (faq_answer f)), (''category'', JString (faq_category f)),
                         (''subcategory'', JString (faq_subcategory f))]"

text \<open>
  \<open>_load_from_cache\<close> and \<open>_generate_and_cache_embeddings\<close>: each returns the service
  and the cache file as it is afterwards. Loading reads the two matrices and nothing
  else; generating embeds the question and the answer texts and rewrites the file.
\<close>

definition load_from_cache :: "faq list \<Rightarrow> cache_file \<Rightarrow> py_exn + faq_service \<times> cache_file" where
  "load_from_cache current_faqs file =
     (case file of
        Content (JObject cache_data) \<Rightarrow>
          (case (dict_get cache_data ''questions'', dict_get cache_data ''answers'') of
             (Some q, Some a) \<Rightarrow>
               (case np_array q of
                  Inl e \<Rightarrow> Inl e
                | Inr qm \<Rightarrow>
                    (case np_array a of
                       Inl e \<Rightarrow> Inl e
                     | Inr am \<Rightarrow>
                         Inr (\<lparr>fs_faqs = current_faqs, fs_question_embeddings = qm,
                               fs_answer_embeddings = am\<rparr>, file)))
           | _ \<Rightarrow> Inl (OtherError ''KeyError''))
      | _ \<Rightarrow> Inl (OtherError ''cache not readable''))"

definition generate_and_cache_embeddings ::
  "embed_api \<Rightarrow> faq list \<Rightarrow> py_exn + faq_service \<times> cache_file" where
  "generate_and_cache_embeddings api current_faqs =
     (case get_embeddings api (map faq_question current_faqs) of
        Inl e \<Rightarrow> Inl e
      | Inr qm \<Rightarrow>
          (case get_embeddings api (map faq_answer current_faqs) of
             Inl e \<Rightarrow> Inl e
           | Inr am \<Rightarrow>
               Inr (\<lparr>fs_faqs = current_faqs, fs_question_embeddings = qm,
                     fs_answer_embeddings = am\<rparr>,
                    Content (JObject [(''questions'', tolist qm), (''answers'', tolist am),
                                      (''metadata'', JArray (map faq_json current_faqs))]))))"

text \<open>\<open>FAQService.__init__\<close>, from the parsed FAQ file and the cache file found on disk.\<close>

definition faq_service_init ::
  "embed_api \<Rightarrow> raw_faq list \<Rightarrow> cache_file \<Rightarrow> py_exn + faq_service \<times> cache_file" where
  "faq_service_init api faq_data file =
     (let current_faqs = add_ids faq_data
      in if cache_exists file \<and> validate_cache current_faqs file
         then load_from_cache current_faqs file
         else generate_and_cache_embeddings api current_faqs)"

subsection \<open>Search\<close>

type_synonym results_dict = "(string, faq \<times> npfloat) pydict"

text \<open>The loop \<open>for i, score in enumerate(question_similarities)\<close>, from index \<open>i\<close> on.\<close>

fun add_question_matches ::
  "faq list \<Rightarrow> nat \<Rightarrow> npfloat list \<Rightarrow> results_dict \<Rightarrow> py_exn + results_dict" where
  "add_question_matches all_faqs i [] results = Inr results"
| "add_question_matches all_faqs i (score # scores) results =
     (if i < length all_faqs
      then add_question_matches all_faqs (Suc i) scores
             (dict_set results (faq_id (all_faqs ! i)) (all_faqs ! i, score))
      else Inl (IndexError ''list index out of range''))"

text \<open>The loop \<open>for i, score in enumerate(answer_similarities)\<close>, keeping the higher score.\<close>

fun merge_answer_matches ::
  "faq list \<Rightarrow> nat \<Rightarrow> npfloat list \<Rightarrow> results_dict \<Rightarrow> py_exn + results_dict" where
  "merge_answer_matches all_faqs i [] results = Inr results"
| "merge_answer_matches all_faqs i (score # scores) results =
     (if i < length all_faqs
      then merge_answer_matches all_faqs (Suc i) scores
             (case dict_get results (faq_id (all_faqs ! i)) of
                Some (_, existing_score) \<Rightarrow>
                  if np_gt score existing_score
                  then dict_set results (faq_id (all_faqs ! i)) (all_faqs ! i, score)
                  else results
              | None \<Rightarrow> dict_set results (faq_id (all_faqs ! i)) (all_faqs ! i, score))
      else Inl (IndexError ''list index out of range''))"

definition to_result :: "faq \<times> npfloat \<Rightarrow> qna_result" where
  "to_result p =
     \<lparr>r_id = faq_id (fst p), r_question = faq_question (fst p), r_answer = faq_answer (fst p),
      r_score = snd p, r_category = faq_category (fst p), r_subcategory = faq_subcategory (fst p)\<rparr>"

text \<open>
  \<open>results.sort(key=lambda x: x.score, reverse=True)\<close> is a parameter \<open>list_sort\<close>
  of \<open>search\<close>. What Python promises of it is that the list it leaves is a
  permutation of the list it was given and that, when \<open><\<close> orders the keys totally,
  the order is descending and stable. On scores without a NaN that list is unique, and
  \<open>stable_sort_desc\<close> computes it by insertion. With a NaN among the keys the order
  depends on the interpreter's merge sort and its run structure, and \<open>sort_contract\<close>
  says nothing about it beyond the permutation.
\<close>

type_synonym result_sort = "qna_result list \<Rightarrow> qna_result list"

fun insert_desc :: "qna_result \<Rightarrow> qna_result list \<Rightarrow> qna_result list" where
  "insert_desc x [] = [x]"
| "insert_desc x (y # ys) =
     (if np_lt (r_score x) (r_score y) then y # insert_desc x ys else x # y # ys)"

definition stable_sort_desc :: result_sort where
  "stable_sort_desc xs = foldr insert_desc xs []"

definition sort_permutes :: "result_sort \<Rightarrow> bool" where
  "sort_permutes list_sort \<longleftrightarrow> (\<forall>xs. mset (list_sort xs) = mset xs)"

definition sort_contract :: "result_sort \<Rightarrow> bool" where
  "sort_contract list_sort \<longleftrightarrow>
     sort_permutes list_sort
     \<and> (\<forall>xs. (\<forall>x \<in> set xs. r_score x \<noteq> NaN) \<longrightarrow> list_sort xs = stable_sort_desc xs)"

definition faq_search ::
  "result_sort \<Rightarrow> embed_api \<Rightarrow> faq_service \<Rightarrow> string \<Rightarrow> int \<Rightarrow> py_exn + qna_result list" where
  "faq_search list_sort api svc query limit =
     (case get_embeddings api [query] of
        Inl e \<Rightarrow> Inl e
      | Inr [] \<Rightarrow> Inl (IndexError ''index 0 is out of bounds'')
      | Inr (query_embedding # _) \<Rightarrow>
          (case cosine_similarity_batch query_embedding (fs_question_embeddings svc) of
             Inl e \<Rightarrow> Inl e
           | Inr question_similarities \<Rightarrow>
               (case cosine_similarity_batch query_embedding (fs_answer_embeddings svc) of
                  Inl e \<Rightarrow> Inl e
                | Inr answer_similarities \<Rightarrow>
                    (case add_question_matches (fs_faqs svc) 0 question_similarities [] of
                       Inl e \<Rightarrow> Inl e
                     | Inr results_dict \<Rightarrow>
                         (case merge_answer_matches (fs_faqs svc) 0 answer_similarities results_dict of
                            Inl e \<Rightarrow> Inl e
                          | Inr merged \<Rightarrow>
                              Inr (py_slice_to (list_sort (map (to_result \<circ> snd) merged))
                                     limit))))))"

section \<open>core/toolkit.py: booking tools\<close>

text \<open>
  The string literals of the source, byte for byte (UTF-8): the two marks that open the
  messages are not ASCII and are spelled out as bytes.
\<close>

definition mark_ok :: string where
  "mark_ok = [char_of (0xC3::nat), char_of (0xA2::nat), char_of (0xC5::nat), char_of (0x93::nat),
              char_of (0xE2::nat), char_of (0x80::nat), char_of (0xA6::nat)]"

definition mark_fail :: string where
  "mark_fail = [char_of (0xC3::nat), char_of (0xA2::nat), char_of (0xC5::nat), char_of (0x92::nat)]"

definition msg_internal_confirmed :: string where
  "msg_internal_confirmed =
     mark_ok @ '' Booking confirmed with internal OTP! ''
       @ ''Our team will contact you shortly to schedule your test drive.''"

definition msg_confirmed :: "string \<Rightarrow> string \<Rightarrow> string" where
  "msg_confirmed name phone =
     mark_ok @ '' Booking confirmed! Thank you, '' @ name @ ''. ''
       @ ''Our team will contact you shortly at '' @ phone @ '' to schedule your test drive.''"

definition msg_invalid_otp :: string where
  "msg_invalid_otp =
     mark_fail @ '' Invalid or expired OTP. Please request a new booking or ''
       @ ''check the OTP and try again.''"

definition fmt_opt :: "string option \<Rightarrow> string" where
  "fmt_opt v = (case v of None \<Rightarrow> ''None'' | Some s \<Rightarrow> s)"

text \<open>
  The \<open>for phone, data in self.state_manager._state.items()\<close> loop of \<open>confirm_ride\<close>:
  the first argument is what is left of the iteration, the second the store itself. The
  loop is left at the first session whose code equals \<open>otp\<close>, by \<open>return\<close> or by
  \<open>break\<close>, so the deletion \<open>verify_otp\<close> performs never meets a further iteration step.
\<close>

fun confirm_scan :: "otp_state \<Rightarrow> otp_state \<Rightarrow> int \<Rightarrow> string \<Rightarrow> string \<times> otp_state" where
  "confirm_scan [] st now otp = (msg_invalid_otp, st)"
| "confirm_scan ((phone, data) # rest) st now otp =
     (if s_otp data = otp
      then (case verify_otp st now phone otp of
              ((success, name), st') \<Rightarrow>
                if success then (msg_confirmed (fmt_opt name) phone, st')
                else (msg_invalid_otp, st'))
      else confirm_scan rest st now otp)"

text \<open>
  \<open>secret_env\<close> is \<open>os.getenv("INTERNAL_SECRET_OTP")\<close>: \<open>None\<close> when the variable is
  unset. The test \<open>if secret_otp and otp == secret_otp\<close> is false for \<open>None\<close> and for
  the empty string.
\<close>

definition confirm_ride :: "string option \<Rightarrow> otp_state \<Rightarrow> int \<Rightarrow> string \<Rightarrow> string \<times> otp_state" where
  "confirm_ride secret_env st now otp =
     (case secret_env of
        Some secret_otp \<Rightarrow>
          if secret_otp \<noteq> [] \<and> otp = secret_otp then (msg_internal_confirmed, st)
          else confirm_scan st st now otp
      | None \<Rightarrow> confirm_scan st st now otp)"

text \<open>
  \<open>book_ride\<close>: \<open>rnd\<close> is the value \<open>random.randint(100000, 999999)\<close> returns. The
  Slack notification is sent to the outside and its failure is swallowed, so it does not
  show in the result or in the store.
\<close>

definition book_ride :: "otp_state \<Rightarrow> int \<Rightarrow> nat \<Rightarrow> string \<Rightarrow> string \<Rightarrow> string \<times> otp_state" where
  "book_ride st now rnd name phone_number =
     (''Thank you, '' @ name @ ''! We've initiated your test drive booking. ''
        @ ''An OTP has been sent to '' @ phone_number @ ''. ''
        @ ''Please provide the OTP to confirm your booking.'',
      store_otp st now phone_number (str_nat rnd) name)"

text \<open>
  Two bookings that drew the same six-digit code: the first at time 0, the second 700
  seconds later.
\<close>

definition two_bookings_same_code :: otp_state where
  "two_bookings_same_code =
     store_otp (store_otp [] 0 ''9000000001'' ''123456'' ''Asha'')
       700000000 ''9000000002'' ''123456'' ''Ravi''"

text \<open>
  An embedding service that cannot be reached, two FAQ records, and a cache file that
  was written when the same two records stood in the opposite order.
\<close>

definition offline_api :: embed_api where
  "offline_api texts = Inl (OtherError ''embedding service unreachable'')"

definition faq_data_ab :: "raw_faq list" where
  "faq_data_ab =
     [\<lparr>raw_question = Some ''How do I transfer ownership?'', raw_answer = Some ''Apply at the RTO.'',
       raw_category = Some ''rto'', raw_subcategory = None\<rparr>,
      \<lparr>raw_question = Some ''How do I pay road tax?'', raw_answer = Some ''Pay online.'',
       raw_category = Some ''tax'', raw_subcategory = None\<rparr>]"

definition cache_of_reordered :: cache_file where
  "cache_of_reordered =
     Content (JObject
       [(''questions'', tolist [[0, 1], [1, 0]]),
        (''answers'', tolist [[0, 1], [1, 0]]),
        (''metadata'', JArray (map faq_json (add_ids (rev faq_data_ab))))])"

text \<open>
  Two notions used to state what \<open>search\<close> computes. \<open>row_similarity q row\<close> is the
  entry \<open>cosine_similarity_batch\<close> computes for one row. \<open>dict_of all_faqs f n\<close> is the
  results dictionary that holds the first \<open>n\<close> records in order, record \<open>j\<close> with the
  score \<open>f j\<close>.
\<close>

definition row_similarity :: "real list \<Rightarrow> real list \<Rightarrow> npfloat" where
  "row_similarity q row = np_dot (np_div_vec row (np_norm row)) (np_div_vec q (np_norm q))"

definition dict_of :: "faq list \<Rightarrow> (nat \<Rightarrow> npfloat) \<Rightarrow> nat \<Rightarrow> results_dict" where
  "dict_of all_faqs f n = map (\<lambda>j. (faq_id (all_faqs ! j), (all_faqs ! j, f j))) [0..<n]"

text \<open>
  A well-formed index for embeddings of dimension \<open>d\<close>: at least one record, identifiers
  that differ (as \<open>__init__\<close> assigns them), one question row and one answer row per
  record, every row of dimension \<open>d\<close>.
\<close>

definition index_ok :: "faq_service \<Rightarrow> nat \<Rightarrow> bool" where
  "index_ok svc d \<longleftrightarrow>
     fs_faqs svc \<noteq> []
     \<and> distinct (map faq_id (fs_faqs svc))
     \<and> length (fs_question_embeddings svc) = length (fs_faqs svc)
     \<and> length (fs_answer_embeddings svc) = length (fs_faqs svc)
     \<and> (\<forall>row \<in> set (fs_question_embeddings svc) \<union> set (fs_answer_embeddings svc). length row = d)"

text \<open>
  An embedding service that maps every text to the vector \<open>(3, 4)\<close>, of norm 5, and
  small indexes over the records of \<open>faq_data_ab\<close>. The vectors \<open>(4, 3)\<close> and
  \<open>(0, 5)\<close> have the cosine similarities \<open>24/25\<close> and \<open>4/5\<close> to \<open>(3, 4)\<close>.
  \<^item> \<open>index_ab\<close>: two records, no zero vector.
  \<^item> \<open>index_zero_question\<close>: one record, its question embedding is the zero vector and
    its answer embedding is the query's.
  \<^item> \<open>index_zero_answer\<close>: one record, its answer embedding is the zero vector.
  \<^item> \<open>index_zero_first\<close>: two records; the question embedding of the first is the zero
    vector while its answer embedding is the query's.
  \<^item> \<open>empty_index\<close>: what \<open>__init__\<close> builds from an FAQ file that holds no record.
\<close>

definition fixed_api :: embed_api where
  "fixed_api texts = Inr (map (\<lambda>t. [3, 4]) texts)"

definition index_ab :: faq_service where
  "index_ab = \<lparr>fs_faqs = add_ids faq_data_ab,
               fs_question_embeddings = [[0, 5], [4, 3]],
               fs_answer_embeddings = [[0, 5], [0, 5]]\<rparr>"

definition index_zero_question :: faq_service where
  "index_zero_question = \<lparr>fs_faqs = add_ids (take 1 faq_data_ab),
               fs_question_embeddings = [[0, 0]],
               fs_answer_embeddings = [[3, 4]]\<rparr>"

definition index_zero_answer :: faq_service where
  "index_zero_answer = \<lparr>fs_faqs = add_ids (take 1 faq_data_ab),
               fs_question_embeddings = [[4, 3]],
               fs_answer_embeddings = [[0, 0]]\<rparr>"

definition index_zero_first :: faq_service where
  "index_zero_first = \<lparr>fs_faqs = add_ids faq_data_ab,
               fs_question_embeddings = [[0, 0], [4, 3]],
               fs_answer_embeddings = [[3, 4], [0, 5]]\<rparr>"

definition empty_index :: faq_service where
  "empty_index = \<lparr>fs_faqs = [], fs_question_embeddings = [], fs_answer_embeddings = []\<rparr>"

text \<open>
  The two records of \<open>faq_data_ab\<close> as results, with a given score, and the order the
  docstring of \<open>search\<close> promises: every score is at least the next one (\<open>>=\<close> of
  floats, false as soon as one side is NaN).
\<close>

definition result_a :: "npfloat \<Rightarrow> qna_result" where
  "result_a score = \<lparr>r_id = ''0'', r_question = ''How do I transfer ownership?'',
       r_answer = ''Apply at the RTO.'', r_score = score, r_category = ''rto'', r_subcategory = []\<rparr>"

definition result_b :: "npfloat \<Rightarrow> qna_result" where
  "result_b score = \<lparr>r_id = ''1'', r_question = ''How do I pay road tax?'',
       r_answer = ''Pay online.'', r_score = score, r_category = ''tax'', r_subcategory = []\<rparr>"

definition highest_first :: "qna_result list \<Rightarrow> bool" where
  "highest_first results = sorted_wrt (\<lambda>x y. np_ge (r_score x) (r_score y)) results"

section \<open>services/car_service.py\<close>

text \<open>
  Three things the car service calls are parameters of the model, so that every
  statement about it holds whatever they compute:
  \<^item> \<open>lower\<close>, the method \<open>str.lower\<close>;
  \<^item> \<open>extract\<close>, the function \<open>process.extract(query, choices, limit=5)\<close> of the
    library \<open>thefuzz\<close>, which returns pairs of a choice and its score;
  \<^item> \<open>select\<close>, the second half of \<open>list_cars\<close> and of \<open>search\<close> (matching the cars
    against the filters, sorting, pagination, \<open>get_basic_only\<close>), which takes no part
    in the validation of the filter values and may return cars or raise.
  A car is a value of any type \<open>'car\<close>. A Python set of strings is the list of its
  elements in iteration order.
\<close>

type_synonym fuzzy_extract = "string \<Rightarrow> string list \<Rightarrow> nat \<Rightarrow> (string \<times> int) list"

record 'car car_service =
  cs_cars :: "(string, 'car) pydict"
  cs_available_brands :: "string list"
  cs_available_body_types :: "string list"
  cs_available_fuel_types :: "string list"
  cs_available_transmissions :: "string list"
  cs_fuzzy_threshold :: int

record car_query =
  q_limit :: int
  q_offset :: int
  q_min_price :: "int option"
  q_max_price :: "int option"
  q_brand :: "string option"
  q_body_type :: "string option"
  q_fuel_type :: "string option"
  q_mileage_more_than :: "real option"
  q_mileage_less_than :: "real option"
  q_seating_capacity :: "int option"
  q_transmission :: "string option"
  q_engine_displacement_more_than :: "int option"
  q_engine_displacement_less_than :: "int option"
  q_sort_by :: "string option"
  q_sort_order :: string

definition sq :: string where
  "sq = [CHR 0x27]"

definition nl :: string where
  "nl = [CHR 0x0A]"

text \<open>\<open>sep.join(xs)\<close>.\<close>

fun py_join :: "string \<Rightarrow> string list \<Rightarrow> string" where
  "py_join sep [] = []"
| "py_join sep [x] = x"
| "py_join sep (x # y # ys) = x @ sep @ py_join sep (y # ys)"

text \<open>The lines \<open>"  {i}. {s}"\<close> for \<open>i, s in enumerate(xs, 1)\<close>.\<close>

definition numbered :: "string list \<Rightarrow> string list" where
  "numbered xs = map (\<lambda>(i, s). ''  '' @ str_nat i @ ''. '' @ s) (enumerate 1 xs)"

text \<open>\<open>str(e)\<close>; the message of \<open>InvalidFilterError\<close> is built in its \<open>__init__\<close>.\<close>

fun exn_str :: "py_exn \<Rightarrow> string" where
  "exn_str (InvalidFilterError filter_name invalid_value suggestions) =
     ''Invalid '' @ filter_name @ '': '' @ sq @ invalid_value @ sq @ nl
       @ ''Did you mean one of these?'' @ nl
       @ concat (map (\<lambda>line. line @ nl) (numbered (take 5 suggestions)))"
| "exn_str (CarNotFoundError msg) = msg"
| "exn_str (ValueError msg) = msg"
| "exn_str (IndexError msg) = msg"
| "exn_str (AxisError msg) = msg"
| "exn_str (OtherError msg) = msg"

definition validate_filter_value ::
  "(string \<Rightarrow> string) \<Rightarrow> fuzzy_extract \<Rightarrow> string \<Rightarrow> string \<Rightarrow> string list \<Rightarrow> py_exn + unit" where
  "validate_filter_value lower extract filter_name value available_values =
     (if lower value \<notin> set (map lower available_values)
      then let suggestions = extract value available_values 5;
               suggestion_list = map fst (filter (\<lambda>s. snd s > 60) suggestions);
               suggestion_list = (if suggestion_list = [] then take 5 (sort available_values)
                                  else suggestion_list)
           in Inl (InvalidFilterError filter_name value suggestion_list)
      else Inr ())"

text \<open>\<open>if v is not None: self._validate_filter_value(name, v, available)\<close>.\<close>

definition validate_given ::
  "(string \<Rightarrow> string) \<Rightarrow> fuzzy_extract \<Rightarrow> string \<times> string option \<times> string list \<Rightarrow> py_exn + unit" where
  "validate_given lower extract check =
     (case check of
        (filter_name, None, available_values) \<Rightarrow> Inr ()
      | (filter_name, Some value, available_values) \<Rightarrow>
          validate_filter_value lower extract filter_name value available_values)"

text \<open>The four checks that open \<open>list_cars\<close> and \<open>search\<close>, in the order of the source.\<close>

definition filter_checks :: "'car car_service \<Rightarrow> car_query \<Rightarrow> (string \<times> string option \<times> string list) list" where
  "filter_checks svc q =
     [(''brand'', q_brand q, cs_available_brands svc),
      (''body_type'', q_body_type q, cs_available_body_types svc),
      (''fuel_type'', q_fuel_type q, cs_available_fuel_types svc),
      (''transmission'', q_transmission q, cs_available_transmissions svc)]"

fun validate_all ::
  "(string \<Rightarrow> string) \<Rightarrow> fuzzy_extract \<Rightarrow> (string \<times> string option \<times> string list) list \<Rightarrow> py_exn + unit" where
  "validate_all lower extract [] = Inr ()"
| "validate_all lower extract (check # checks) =
     (case validate_given lower extract check of
        Inl e \<Rightarrow> Inl e
      | Inr _ \<Rightarrow> validate_all lower extract checks)"

definition validate_sort :: "car_query \<Rightarrow> py_exn + unit" where
  "validate_sort q =
     (let valid_sort_fields = [''price'', ''mileage'', ''seating_capacity'', ''engine_displacement'']
      in case q_sort_by q of
           Some sort_by \<Rightarrow>
             if sort_by \<notin> set valid_sort_fields
             then Inl (ValueError (''Invalid sort_by: '' @ sq @ sort_by @ sq @ ''. Must be one of: ''
                                    @ py_join '', '' valid_sort_fields))
             else if q_sort_order q \<notin> {''asc'', ''desc''}
             then Inl (ValueError (''Invalid sort_order: '' @ sq @ q_sort_order q @ sq
                                    @ ''. Must be '' @ sq @ ''asc'' @ sq @ '' or '' @ sq @ ''desc'' @ sq))
             else Inr ()
         | None \<Rightarrow>
             if q_sort_order q \<notin> {''asc'', ''desc''}
             then Inl (ValueError (''Invalid sort_order: '' @ sq @ q_sort_order q @ sq
                                    @ ''. Must be '' @ sq @ ''asc'' @ sq @ '' or '' @ sq @ ''desc'' @ sq))
             else Inr ())"

definition list_cars ::
  "(string \<Rightarrow> string) \<Rightarrow> fuzzy_extract \<Rightarrow> ('car car_service \<Rightarrow> car_query \<Rightarrow> py_exn + 'car list)
     \<Rightarrow> 'car car_service \<Rightarrow> car_query \<Rightarrow> py_exn + 'car list" where
  "list_cars lower extract select svc q =
     (case validate_all lower extract (filter_checks svc q) of
        Inl e \<Rightarrow> Inl e
      | Inr _ \<Rightarrow>
          (case validate_sort q of
             Inl e \<Rightarrow> Inl e
           | Inr _ \<Rightarrow> select svc q))"

definition search_cars ::
  "(string \<Rightarrow> string) \<Rightarrow> fuzzy_extract
     \<Rightarrow> ('car car_service \<Rightarrow> string \<Rightarrow> car_query \<Rightarrow> py_exn + 'car list)
     \<Rightarrow> 'car car_service \<Rightarrow> string \<Rightarrow> car_query \<Rightarrow> py_exn + 'car list" where
  "search_cars lower extract select svc query q =
     (case validate_all lower extract (filter_checks svc q) of
        Inl e \<Rightarrow> Inl e
      | Inr _ \<Rightarrow>
          (case validate_sort q of
             Inl e \<Rightarrow> Inl e
           | Inr _ \<Rightarrow> select svc query q))"

text \<open>
  \<open>get_car_details\<close> and \<open>get_extended_car_details\<close>: they differ in what they return
  for a car that is found (\<open>car.get_basic_only()\<close>, here \<open>view car\<close>, against the car
  itself). A \<open>CarDetail\<close> object is always true in \<open>if car:\<close>.
\<close>

definition car_not_found :: "fuzzy_extract \<Rightarrow> (string \<Rightarrow> string) \<Rightarrow> 'car car_service \<Rightarrow> string \<Rightarrow> py_exn" where
  "car_not_found extract lower svc car_id =
     (let available_ids = map fst (cs_cars svc);
          suggestions = extract (lower car_id) available_ids 5;
          suggestion_list = map fst suggestions
      in CarNotFoundError (''Car '' @ sq @ car_id @ sq @ '' not found.'' @ nl
                            @ ''Did you mean one of these?'' @ nl
                            @ py_join nl (numbered suggestion_list)))"

definition get_car_details ::
  "(string \<Rightarrow> string) \<Rightarrow> fuzzy_extract \<Rightarrow> ('car \<Rightarrow> 'car) \<Rightarrow> 'car car_service \<Rightarrow> string \<Rightarrow> py_exn + 'car" where
  "get_car_details lower extract view svc car_id =
     (case dict_get (cs_cars svc) (lower car_id) of
        Some car \<Rightarrow> Inr (view car)
      | None \<Rightarrow> Inl (car_not_found extract lower svc car_id))"

definition get_extended_car_details ::
  "(string \<Rightarrow> string) \<Rightarrow> fuzzy_extract \<Rightarrow> 'car car_service \<Rightarrow> string \<Rightarrow> py_exn + 'car" where
  "get_extended_car_details lower extract svc car_id =
     (case dict_get (cs_cars svc) (lower car_id) of
        Some car \<Rightarrow> Inr car
      | None \<Rightarrow> Inl (car_not_found extract lower svc car_id))"

section \<open>core/toolkit.py: catalogue tools\<close>

text \<open>
  A tool is \<open>try: body except E as e: return prefix + str(e) except Exception as e: ...\<close>.
  Its result is again a sum, so that what reaches the caller as an exception would show
  as \<open>Inl\<close>. \<open>serialize\<close> is \<open>serialize_car_detail\<close>, which may raise.
\<close>

fun serialize_all :: "('car \<Rightarrow> py_exn + string) \<Rightarrow> 'car list \<Rightarrow> py_exn + string list" where
  "serialize_all serialize [] = Inr []"
| "serialize_all serialize (car # cars) =
     (case serialize car of
        Inl e \<Rightarrow> Inl e
      | Inr s \<Rightarrow>
          (case serialize_all serialize cars of
             Inl e \<Rightarrow> Inl e
           | Inr ss \<Rightarrow> Inr (s # ss)))"

fun is_car_not_found :: "py_exn \<Rightarrow> bool" where
  "is_car_not_found (CarNotFoundError _) = True"
| "is_car_not_found _ = False"

fun is_invalid_filter :: "py_exn \<Rightarrow> bool" where
  "is_invalid_filter (InvalidFilterError _ _ _) = True"
| "is_invalid_filter _ = False"

definition tool_get_car_details ::
  "(string \<Rightarrow> string) \<Rightarrow> fuzzy_extract \<Rightarrow> ('car \<Rightarrow> 'car) \<Rightarrow> ('car \<Rightarrow> py_exn + string)
     \<Rightarrow> 'car car_service \<Rightarrow> string \<Rightarrow> py_exn + string" where
  "tool_get_car_details lower extract view serialize svc car_id =
     (case (case get_car_details lower extract view svc car_id of
              Inl e \<Rightarrow> Inl e
            | Inr car \<Rightarrow> serialize car) of
        Inr text \<Rightarrow> Inr text
      | Inl e \<Rightarrow>
          if is_car_not_found e then Inr (''Car not found: '' @ exn_str e)
          else Inr (''Error getting car details: '' @ exn_str e))"

definition tool_get_extended_car_details ::
  "(string \<Rightarrow> string) \<Rightarrow> fuzzy_extract \<Rightarrow> ('car \<Rightarrow> py_exn + string)
     \<Rightarrow> 'car car_service \<Rightarrow> string \<Rightarrow> py_exn + string" where
  "tool_get_extended_car_details lower extract serialize svc car_id =
     (case (case get_extended_car_details lower extract svc car_id of
              Inl e \<Rightarrow> Inl e
            | Inr car \<Rightarrow> serialize car) of
        Inr text \<Rightarrow> Inr text
      | Inl e \<Rightarrow>
          if is_car_not_found e then Inr (''Car not found: '' @ exn_str e)
          else Inr (''Error getting extended car details: '' @ exn_str e))"

definition tool_list_cars ::
  "(string \<Rightarrow> string) \<Rightarrow> fuzzy_extract \<Rightarrow> ('car car_service \<Rightarrow> car_query \<Rightarrow> py_exn + 'car list)
     \<Rightarrow> ('car \<Rightarrow> py_exn + string) \<Rightarrow> 'car car_service \<Rightarrow> car_query \<Rightarrow> py_exn + string" where
  "tool_list_cars lower extract select serialize svc q =
     (case (case list_cars lower extract select svc q of
              Inl e \<Rightarrow> Inl e
            | Inr cars \<Rightarrow>
                (case serialize_all serialize cars of
                   Inl e \<Rightarrow> Inl e
                 | Inr serialized_cars \<Rightarrow> Inr (py_join (nl @ nl) serialized_cars))) of
        Inr text \<Rightarrow> Inr text
      | Inl e \<Rightarrow>
          if is_invalid_filter e then Inr (''Filter error: '' @ exn_str e)
          else Inr (''Error listing cars: '' @ exn_str e))"

definition tool_search_car ::
  "(string \<Rightarrow> string) \<Rightarrow> fuzzy_extract
     \<Rightarrow> ('car car_service \<Rightarrow> string \<Rightarrow> car_query \<Rightarrow> py_exn + 'car list)
     \<Rightarrow> ('car \<Rightarrow> py_exn + string) \<Rightarrow> 'car car_service \<Rightarrow> string \<Rightarrow> car_query \<Rightarrow> py_exn + string" where
  "tool_search_car lower extract select serialize svc query q =
     (case (case search_cars lower extract select svc query q of
              Inl e \<Rightarrow> Inl e
            | Inr cars \<Rightarrow>
                if cars = [] then Inr ''No cars found matching your search criteria.''
                else (case serialize_all serialize cars of
                        Inl e \<Rightarrow> Inl e
                      | Inr serialized_cars \<Rightarrow> Inr (py_join (nl @ nl) serialized_cars))) of
        Inr text \<Rightarrow> Inr text
      | Inl e \<Rightarrow>
          if is_invalid_filter e then Inr (''Filter error: '' @ exn_str e)
          else Inr (''Error searching cars: '' @ exn_str e))"

text \<open>
  Values for the examples: lower-casing of ASCII letters; an \<open>extract\<close> that scores
  every choice with one given number and returns the first \<open>limit\<close> choices; a
  catalogue of two cars, none of which states a transmission.
\<close>

definition ascii_lower :: "string \<Rightarrow> string" where
  "ascii_lower s =
     map (\<lambda>c. case map_of (zip ''ABCDEFGHIJKLMNOPQRSTUVWXYZ'' ''abcdefghijklmnopqrstuvwxyz'') c of
                 Some l \<Rightarrow> l
               | None \<Rightarrow> c) s"

definition extract_scoring :: "int \<Rightarrow> fuzzy_extract" where
  "extract_scoring score query choices limit = take limit (map (\<lambda>c. (c, score)) choices)"

definition demo_cars :: "string car_service" where
  "demo_cars =
     \<lparr>cs_cars = [(''mahindra_thar'', ''Mahindra Thar''), (''mahindra_xuv700'', ''Mahindra XUV700'')],
      cs_available_brands = [''Mahindra''],
      cs_available_body_types = [''SUV''],
      cs_available_fuel_types = [''Petrol'', ''Diesel''],
      cs_available_transmissions = [],
      cs_fuzzy_threshold = 70\<rparr>"

definition demo_query :: car_query where
  "demo_query =
     \<lparr>q_limit = 10, q_offset = 0, q_min_price = None, q_max_price = None, q_brand = None,
      q_body_type = None, q_fuel_type = None, q_mileage_more_than = None,
      q_mileage_less_than = None, q_seating_capacity = None, q_transmission = None,
      q_engine_displacement_more_than = None, q_engine_displacement_less_than = None,
      q_sort_by = None, q_sort_order = ''asc''\<rparr>"

definition select_all :: "string car_service \<Rightarrow> car_query \<Rightarrow> py_exn + string list" where
  "select_all svc q = Inr (map snd (cs_cars svc))"

definition serialize_name :: "string \<Rightarrow> py_exn + string" where
  "serialize_name car = Inr car"

text \<open>A check is rejected when its filter is given and matches no available value, ignoring case.\<close>

definition rejected :: "(string \<Rightarrow> string) \<Rightarrow> string \<times> string option \<times> string list \<Rightarrow> bool" where
  "rejected lower check =
     (case check of
        (filter_name, None, available_values) \<Rightarrow> False
      | (filter_name, Some value, available_values) \<Rightarrow>
          lower value \<notin> set (map lower available_values))"

text \<open>The suggestions \<open>_validate_filter_value\<close> attaches to its error.\<close>

definition suggestions_for :: "fuzzy_extract \<Rightarrow> string \<Rightarrow> string list \<Rightarrow> string list" where
  "suggestions_for extract value available_values =
     (let fuzzy = map fst (filter (\<lambda>s. snd s > 60) (extract value available_values 5))
      in if fuzzy = [] then take 5 (sort available_values) else fuzzy)"

section \<open>Properties of the dictionary operations\<close>

lemma dict_get_set: "dict_get (dict_set d k v) k' = (if k' = k then Some v else dict_get d k')"
  by (induction d) (auto simp: dict_get_def)

lemma dict_get_del: "dict_get (dict_del d k) k' = (if k' = k then None else dict_get d k')"
  by (induction d) (auto simp: dict_get_def dict_del_def)

lemma keys_dict_set: "fst ` set (dict_set d k v) = insert k (fst ` set d)"
  by (induction d) force+

lemma distinct_dict_set: "distinct (map fst d) \<Longrightarrow> distinct (map fst (dict_set d k v))"
  by (induction d) (auto simp: keys_dict_set)

lemma distinct_dict_del: "distinct (map fst d) \<Longrightarrow> distinct (map fst (dict_del d k))"
  by (simp add: dict_del_def distinct_map_filter)

lemma distinct_foldl_dict_del: "distinct (map fst d) \<Longrightarrow> distinct (map fst (foldl dict_del d ks))"
  by (induction ks arbitrary: d) (auto simp: distinct_dict_del)

section \<open>The OTP store\<close>

lemma distinct_apply_otp_op: "distinct (map fst st) \<Longrightarrow> distinct (map fst (apply_otp_op st x))"
  by (cases x)
     (auto simp: store_otp_def verify_otp_def cleanup_expired_def distinct_dict_set
        distinct_dict_del distinct_foldl_dict_del split: option.splits)

lemma distinct_foldl_ops:
  "distinct (map fst st) \<Longrightarrow> distinct (map fst (foldl apply_otp_op st ops))"
  by (induction ops arbitrary: st) (auto simp: distinct_apply_otp_op)

lemma distinct_run_otp_ops: "distinct (map fst (run_otp_ops ops))"
  by (simp add: run_otp_ops_def distinct_foldl_ops)

lemma sessions_of_distinct:
  "distinct (map fst st) \<Longrightarrow>
   sessions_of st phone = (case dict_get st phone of None \<Rightarrow> [] | Some s \<Rightarrow> [s])"
proof (induction st)
  case Nil
  then show ?case by (simp add: sessions_of_def dict_get_def)
next
  case (Cons a st)
  then show ?case
    by (cases a) (force simp: sessions_of_def dict_get_def filter_empty_conv
        split: option.splits dest: map_of_SomeD)
qed

text \<open>
  C2. Storing a code for a phone and verifying it with that code: within ten minutes of
  the store the verification returns \<open>(True, name)\<close> and consumes the session, so
  that any further verification with the same code returns \<open>(False, None)\<close>; more
  than ten minutes after the store it returns \<open>(False, None)\<close> although the code is
  the right one. This holds whatever the store held before.
\<close>

theorem otp_round_trip:
  "(t1 - t0 \<le> timedelta_minutes 10 \<longrightarrow>
      (\<exists>st2. verify_otp (store_otp st t0 phone otp name) t1 phone otp = ((True, Some name), st2)
          \<and> (\<forall>t2. fst (verify_otp st2 t2 phone otp) = (False, None))))
   \<and> (t1 - t0 > timedelta_minutes 10 \<longrightarrow>
      fst (verify_otp (store_otp st t0 phone otp name) t1 phone otp) = (False, None))"
  by (simp add: verify_otp_def store_otp_def dict_get_set dict_get_del)

theorem otp_round_trip_witness:
  "verify_otp (store_otp [] 0 ''9876543210'' ''123456'' ''John Doe'') 599999999 ''9876543210'' ''123456''
     = ((True, Some ''John Doe''), [])
   \<and> fst (verify_otp [] 600000000 ''9876543210'' ''123456'') = (False, None)
   \<and> fst (verify_otp (store_otp [] 0 ''9876543210'' ''123456'' ''John Doe'') 600000001
             ''9876543210'' ''123456'') = (False, None)"
  using otp_round_trip [of 599999999 0 "[]" "''9876543210''" "''123456''" "''John Doe''"]
    otp_round_trip [of 600000001 0 "[]" "''9876543210''" "''123456''" "''John Doe''"]
  by (simp add: verify_otp_def store_otp_def dict_get_def dict_del_def timedelta_minutes_def)

text \<open>
  C5. When the store holds an unexpired session for a phone, verifying that phone with a
  code different from the stored one returns \<open>(False, None)\<close> and leaves the store as
  it was; a later verification with the stored code, still inside the ten minutes,
  returns \<open>(True, name)\<close>.
\<close>

theorem wrong_code_keeps_session:
  assumes "dict_get st phone = Some s"
    and "now - s_timestamp s \<le> timedelta_minutes 10"
    and "code \<noteq> s_otp s"
  shows "verify_otp st now phone code = ((False, None), st)
     \<and> (\<forall>later. later - s_timestamp s \<le> timedelta_minutes 10 \<longrightarrow>
          verify_otp (snd (verify_otp st now phone code)) later phone (s_otp s)
            = ((True, Some (s_name s)), dict_del st phone))"
  using assms by (auto simp: verify_otp_def)

theorem wrong_code_keeps_session_witness:
  "verify_otp (store_otp [] 0 ''9876543210'' ''123456'' ''John Doe'') 1000 ''9876543210'' ''000000''
     = ((False, None), store_otp [] 0 ''9876543210'' ''123456'' ''John Doe'')
   \<and> verify_otp (store_otp [] 0 ''9876543210'' ''123456'' ''John Doe'') 2000 ''9876543210'' ''123456''
     = ((True, Some ''John Doe''), [])"
  using wrong_code_keeps_session [of "store_otp [] 0 ''9876543210'' ''123456'' ''John Doe''"
      "''9876543210''" "\<lparr>s_otp = ''123456'', s_name = ''John Doe'', s_timestamp = 0\<rparr>"
      1000 "''000000''"]
  by (simp add: store_otp_def dict_get_def dict_del_def timedelta_minutes_def verify_otp_def)

text \<open>
  C6. After any sequence of \<open>store_otp\<close>, \<open>verify_otp\<close> and \<open>cleanup_expired\<close>
  calls on a fresh state manager no phone occurs twice among the keys, so every phone
  has at most one session; and a \<open>store_otp\<close> for a phone leaves exactly the new
  session under that phone, whatever was stored for it before.
\<close>

theorem one_session_per_phone:
  "distinct (map fst (run_otp_ops ops))
   \<and> length (sessions_of (run_otp_ops ops) phone) \<le> 1
   \<and> sessions_of (store_otp (run_otp_ops ops) now phone otp name) phone
       = [\<lparr>s_otp = otp, s_name = name, s_timestamp = now\<rparr>]"
proof -
  have d: "distinct (map fst (run_otp_ops ops))" by (rule distinct_run_otp_ops)
  have d': "distinct (map fst (store_otp (run_otp_ops ops) now phone otp name))"
    unfolding store_otp_def by (rule distinct_dict_set [OF d])
  show ?thesis
    using d by (simp add: sessions_of_distinct [OF d] sessions_of_distinct [OF d']
        split: option.splits) (simp add: store_otp_def dict_get_set)
qed

section \<open>Confirming a booking\<close>

lemma find_dict_get:
  "distinct (map fst st) \<Longrightarrow> find P st = Some (phone, data) \<Longrightarrow> dict_get st phone = Some data"
  by (induction st) (auto simp: dict_get_def split: if_splits intro: rev_image_eqI)

lemma confirm_scan_find:
  "confirm_scan xs st now otp =
     (case find (\<lambda>kv. s_otp (snd kv) = otp) xs of
        None \<Rightarrow> (msg_invalid_otp, st)
      | Some (phone, data) \<Rightarrow>
          (case verify_otp st now phone otp of
             ((success, name), st') \<Rightarrow>
               if success then (msg_confirmed (fmt_opt name) phone, st')
               else (msg_invalid_otp, st')))"
  by (induction xs st now otp rule: confirm_scan.induct) auto

lemma find_code: "find (\<lambda>kv. s_otp (snd kv) = otp) st = Some (phone, data) \<Longrightarrow> s_otp data = otp"
  by (induction st) (auto split: if_splits)

lemma msg_invalid_neq_confirmed: "msg_invalid_otp \<noteq> msg_confirmed name phone"
  by (simp add: msg_invalid_otp_def msg_confirmed_def mark_ok_def mark_fail_def)

lemma msg_invalid_neq_internal: "msg_invalid_otp \<noteq> msg_internal_confirmed"
  by (simp add: msg_invalid_otp_def msg_internal_confirmed_def mark_ok_def mark_fail_def)

text \<open>
  C7, as the code has it. \<open>confirm_ride\<close> takes no phone number: it walks the stored
  sessions in insertion order and settles on the first one whose code equals the
  supplied \<open>otp\<close>. When the internal secret does not apply and that first session is
  unexpired, the result is the booking-confirmed message for that session's name and
  phone, and the session is consumed; when that first session has expired, the result
  is the invalid-or-expired message and the session is deleted, whatever sessions
  follow it.
\<close>

theorem confirm_ride_first_match:
  assumes "distinct (map fst st)"
    and "\<not> (\<exists>secret. secret_env = Some secret \<and> secret \<noteq> [] \<and> otp = secret)"
    and "find (\<lambda>kv. s_otp (snd kv) = otp) st = Some (phone, data)"
  shows "confirm_ride secret_env st now otp =
           (if now - s_timestamp data \<le> timedelta_minutes 10
            then (msg_confirmed (s_name data) phone, dict_del st phone)
            else (msg_invalid_otp, dict_del st phone))"
proof -
  have g: "dict_get st phone = Some data"
    using assms(1,3) by (rule find_dict_get)
  have c: "s_otp data = otp" using assms(3) by (rule find_code)
  have "confirm_scan st st now otp =
           (if now - s_timestamp data \<le> timedelta_minutes 10
            then (msg_confirmed (s_name data) phone, dict_del st phone)
            else (msg_invalid_otp, dict_del st phone))"
    by (simp add: confirm_scan_find assms(3) verify_otp_def g c fmt_opt_def)
  then show ?thesis using assms(2)
    by (cases secret_env) (auto simp: confirm_ride_def)
qed

theorem confirm_ride_first_match_witness:
  "confirm_ride None two_bookings_same_code 1000 ''123456''
     = (msg_confirmed ''Asha'' ''9000000001'',
        [(''9000000002'', \<lparr>s_otp = ''123456'', s_name = ''Ravi'', s_timestamp = 700000000\<rparr>)])"
  using confirm_ride_first_match [of two_bookings_same_code None "''123456''" "''9000000001''"
      "\<lparr>s_otp = ''123456'', s_name = ''Asha'', s_timestamp = 0\<rparr>" 1000]
  by (simp add: two_bookings_same_code_def store_otp_def dict_del_def timedelta_minutes_def)

text \<open>
  The store of \<open>two_bookings_same_code\<close>, one microsecond after the second booking:
  the session of the second phone is live, unexpired and carries the supplied code, yet
  \<open>confirm_ride\<close> answers with the invalid-or-expired message, because the expired
  session of the first phone carries the same code and comes first.
\<close>

theorem confirm_ride_live_session_counterexample:
  "dict_get two_bookings_same_code ''9000000002''
       = Some \<lparr>s_otp = ''123456'', s_name = ''Ravi'', s_timestamp = 700000000\<rparr>
   \<and> 700000001 - (700000000::int) \<le> timedelta_minutes 10
   \<and> fst (confirm_ride None two_bookings_same_code 700000001 ''123456'') = msg_invalid_otp
   \<and> fst (confirm_ride None two_bookings_same_code 700000001 ''123456'')
        \<noteq> msg_confirmed ''Ravi'' ''9000000002''"
  by (simp add: two_bookings_same_code_def store_otp_def dict_get_def confirm_ride_def
        verify_otp_def timedelta_minutes_def msg_invalid_neq_confirmed)

text \<open>
  C10, as the code has it. When \<open>INTERNAL_SECRET_OTP\<close> is set to a non-empty value
  and \<open>otp\<close> equals it, \<open>confirm_ride\<close> returns the internal booking-confirmed
  message and the store is returned as it was, whatever it holds (also when it is
  empty).
\<close>

theorem internal_secret_otp:
  assumes "secret_otp \<noteq> []"
  shows "confirm_ride (Some secret_otp) st now secret_otp = (msg_internal_confirmed, st)"
  using assms by (simp add: confirm_ride_def)

theorem internal_secret_otp_witness:
  "confirm_ride (Some ''424242'') [] 0 ''424242'' = (msg_internal_confirmed, [])"
  using internal_secret_otp [of "''424242''" "[]" 0] by simp

text \<open>
  With the variable set to the empty string and an empty \<open>otp\<close> the truth test on the
  secret fails, the sessions are scanned, and the answer is the invalid-or-expired
  message.
\<close>

theorem empty_secret_counterexample:
  "confirm_ride (Some []) [] 0 [] = (msg_invalid_otp, [])
   \<and> msg_invalid_otp \<noteq> msg_internal_confirmed"
  by (simp add: confirm_ride_def msg_invalid_neq_internal)

section \<open>The embedding cache of the FAQ service\<close>

lemma length_add_ids: "length (add_ids faq_data) = length faq_data"
  by (simp add: add_ids_def)

lemma keys_subset_iff:
  "{''questions'', ''answers'', ''metadata''} \<subseteq> fst ` set cache_data \<longleftrightarrow>
   dict_get cache_data ''questions'' \<noteq> None \<and> dict_get cache_data ''answers'' \<noteq> None
     \<and> dict_get cache_data ''metadata'' \<noteq> None"
  by (simp add: dict_get_def map_of_eq_None_iff)

lemma validate_cache_iff:
  "cache_exists file \<and> validate_cache current_faqs file \<longleftrightarrow>
   (\<exists>cache_data q a m. file = Content (JObject cache_data)
      \<and> dict_get cache_data ''questions'' = Some q
      \<and> dict_get cache_data ''answers'' = Some a
      \<and> dict_get cache_data ''metadata'' = Some m
      \<and> py_len q = Some (length current_faqs)
      \<and> py_len a = Some (length current_faqs)
      \<and> py_len m = Some (length current_faqs))"
  unfolding validate_cache_def cache_exists_def keys_subset_iff
  by (auto split: cache_file.splits json.splits option.splits)

text \<open>
  C4, as the code has it. \<open>__init__\<close> loads the matrices from the cache exactly when
  the file parses to an object that has the keys \<open>questions\<close>, \<open>answers\<close> and
  \<open>metadata\<close> with three values of one length, the number of current records. Only
  the length of the cached metadata is looked at, never its records or their order; in
  every other case the embeddings are generated and the cache is rewritten.
\<close>

theorem cache_used_iff_counts_match:
  "faq_service_init api faq_data file =
     (if \<exists>cache_data q a m. file = Content (JObject cache_data)
            \<and> dict_get cache_data ''questions'' = Some q
            \<and> dict_get cache_data ''answers'' = Some a
            \<and> dict_get cache_data ''metadata'' = Some m
            \<and> py_len q = Some (length faq_data)
            \<and> py_len a = Some (length faq_data)
            \<and> py_len m = Some (length faq_data)
      then load_from_cache (add_ids faq_data) file
      else generate_and_cache_embeddings api (add_ids faq_data))"
  unfolding faq_service_init_def Let_def validate_cache_iff length_add_ids by simp

lemma str_nat_0: "str_nat 0 = ''0''"
  by (simp add: str_nat.simps digit_char_def)

lemma str_nat_1: "str_nat (Suc 0) = ''1''"
  by (simp add: str_nat.simps digit_char_def)

lemma add_ids_ab: "add_ids faq_data_ab = 
     [\<lparr>faq_id = ''0'', faq_question = ''How do I transfer ownership?'', faq_answer = ''Apply at the RTO.'',
       faq_category = ''rto'', faq_subcategory = []\<rparr>,
      \<lparr>faq_id = ''1'', faq_question = ''How do I pay road tax?'', faq_answer = ''Pay online.'',
       faq_category = ''tax'', faq_subcategory = []\<rparr>]"
  by (simp add: add_ids_def faq_data_ab_def get_or_empty_def str_nat_0 str_nat_1)

lemma add_ids_ba: "add_ids (rev faq_data_ab) = 
     [\<lparr>faq_id = ''0'', faq_question = ''How do I pay road tax?'', faq_answer = ''Pay online.'',
       faq_category = ''tax'', faq_subcategory = []\<rparr>,
       \<lparr>faq_id = ''1'', faq_question = ''How do I transfer ownership?'', faq_answer = ''Apply at the RTO.'',
       faq_category = ''rto'', faq_subcategory = []\<rparr>]"
  by (simp add: add_ids_def faq_data_ab_def get_or_empty_def str_nat_0 str_nat_1)

lemma np_array_tolist2: "np_array (tolist [[0, 1], [1, 0]]) = Inr [[0, 1], [1, 0]]"
  by (simp add: np_array_def tolist_def)

text \<open>
  The cache of the reordered records has the right count: it is accepted and its
  matrices are loaded against the current order, while generating would have failed
  because the service is unreachable.
\<close>

theorem reordered_cache_counterexample:
  "cache_of_reordered =
     Content (JObject
       [(''questions'', tolist [[0, 1], [1, 0]]),
        (''answers'', tolist [[0, 1], [1, 0]]),
        (''metadata'', JArray (map faq_json (add_ids (rev faq_data_ab))))])
   \<and> map faq_json (add_ids (rev faq_data_ab)) \<noteq> map faq_json (add_ids faq_data_ab)
   \<and> validate_cache (add_ids faq_data_ab) cache_of_reordered
   \<and> faq_service_init offline_api faq_data_ab cache_of_reordered
       = Inr (\<lparr>fs_faqs = add_ids faq_data_ab,
                fs_question_embeddings = [[0, 1], [1, 0]],
                fs_answer_embeddings = [[0, 1], [1, 0]]\<rparr>, cache_of_reordered)
   \<and> generate_and_cache_embeddings offline_api (add_ids faq_data_ab)
       = Inl (OtherError ''embedding service unreachable'')"
proof -
  have m: "map faq_json (add_ids (rev faq_data_ab)) \<noteq> map faq_json (add_ids faq_data_ab)"
    by (simp add: add_ids_ab add_ids_ba faq_json_def)
  have v: "validate_cache (add_ids faq_data_ab) cache_of_reordered"
    by (simp add: validate_cache_def cache_of_reordered_def dict_get_def tolist_def length_add_ids)
      (simp add: faq_data_ab_def)
  have e: "cache_exists cache_of_reordered"
    by (simp add: cache_exists_def cache_of_reordered_def)
  have l: "load_from_cache (add_ids faq_data_ab) cache_of_reordered
       = Inr (\<lparr>fs_faqs = add_ids faq_data_ab,
                fs_question_embeddings = [[0, 1], [1, 0]],
                fs_answer_embeddings = [[0, 1], [1, 0]]\<rparr>, cache_of_reordered)"
    by (simp add: load_from_cache_def cache_of_reordered_def dict_get_def np_array_tolist2)
  have i: "faq_service_init offline_api faq_data_ab cache_of_reordered
       = load_from_cache (add_ids faq_data_ab) cache_of_reordered"
    by (simp add: faq_service_init_def v e)
  have g: "generate_and_cache_embeddings offline_api (add_ids faq_data_ab)
       = Inl (OtherError ''embedding service unreachable'')"
    by (simp add: generate_and_cache_embeddings_def add_ids_ab get_embeddings.simps offline_api_def)
  show ?thesis using m v l i g by (simp add: cache_of_reordered_def)
qed

theorem cache_used_iff_counts_match_witness:
  "faq_service_init offline_api faq_data_ab cache_of_reordered
     = load_from_cache (add_ids faq_data_ab) cache_of_reordered
   \<and> faq_service_init offline_api faq_data_ab Absent
     = generate_and_cache_embeddings offline_api (add_ids faq_data_ab)"
  using cache_used_iff_counts_match [of offline_api faq_data_ab cache_of_reordered]
    cache_used_iff_counts_match [of offline_api faq_data_ab Absent]
  by (simp add: cache_of_reordered_def dict_get_def tolist_def length_add_ids)
    (simp add: faq_data_ab_def)

section \<open>Decimal identifiers\<close>

lemma digit_char_inj: "d < 10 \<Longrightarrow> d' < 10 \<Longrightarrow> digit_char d = digit_char d' \<Longrightarrow> d = d'"
proof -
  have *: "\<And>n::nat. n < 10 \<longleftrightarrow> n \<in> {0,1,2,3,4,5,6,7,8,9}" by auto
  show "d < 10 \<Longrightarrow> d' < 10 \<Longrightarrow> digit_char d = digit_char d' \<Longrightarrow> d = d'"
    unfolding * digit_char_def by auto
qed
lemma str_nat_nonempty: "str_nat n \<noteq> []"
  by (subst str_nat.simps) simp
lemma str_nat_inj: "str_nat n = str_nat m \<Longrightarrow> n = m"
proof (induction n arbitrary: m rule: str_nat.induct)
  case (1 n)
  show ?case
  proof (cases "n < 10")
    case True
    then have n: "str_nat n = [digit_char n]" by (simp add: str_nat.simps)
    show ?thesis
    proof (cases "m < 10")
      case True
      then have "str_nat m = [digit_char m]" by (simp add: str_nat.simps)
      with n "1.prems" \<open>n < 10\<close> True show ?thesis by (auto dest: digit_char_inj)
    next
      case False
      then have "str_nat m = str_nat (m div 10) @ [digit_char (m mod 10)]" by (simp add: str_nat.simps)
      with n "1.prems" have "str_nat (m div 10) = []" by simp
      then show ?thesis by (simp add: str_nat_nonempty)
    qed
  next
    case False
    then have n: "str_nat n = str_nat (n div 10) @ [digit_char (n mod 10)]" by (simp add: str_nat.simps)
    show ?thesis
    proof (cases "m < 10")
      case True
      then have "str_nat m = [digit_char m]" by (simp add: str_nat.simps)
      with n "1.prems" have "str_nat (n div 10) = []" by simp
      then show ?thesis by (simp add: str_nat_nonempty)
    next
      case m: False
      then have "str_nat m = str_nat (m div 10) @ [digit_char (m mod 10)]" by (simp add: str_nat.simps)
      with n "1.prems" have e: "str_nat (n div 10) = str_nat (m div 10)"
        and d: "digit_char (n mod 10) = digit_char (m mod 10)" by simp_all
      from "1.IH" [OF False e] have "n div 10 = m div 10" .
      moreover have "n mod 10 = m mod 10" by (rule digit_char_inj [OF _ _ d]) simp_all
      ultimately show ?thesis by (metis div_mult_mod_eq)
    qed
  qed
qed

lemma add_ids_conv: "add_ids faq_data =
    map (\<lambda>i. \<lparr>faq_id = str_nat i,
                     faq_question = get_or_empty (raw_question (faq_data ! i)),
                     faq_answer = get_or_empty (raw_answer (faq_data ! i)),
                     faq_category = get_or_empty (raw_category (faq_data ! i)),
                     faq_subcategory = get_or_empty (raw_subcategory (faq_data ! i))\<rparr>) [0..<length faq_data]"
  by (auto simp: add_ids_def enumerate_eq_zip intro!: nth_equalityI)

lemma ids_add_ids: "map faq_id (add_ids faq_data) = map str_nat [0..<length faq_data]"
  by (simp add: add_ids_conv comp_def)

lemma distinct_ids_add_ids: "distinct (map faq_id (add_ids faq_data))"
  unfolding ids_add_ids
  by (simp add: distinct_map inj_on_def str_nat_inj)

section \<open>Cosine similarity\<close>

lemma np_div_vec_nonzero: "n \<noteq> 0 \<Longrightarrow> np_div_vec v n = map (\<lambda>x. Fin (x / n)) v"
  by (simp add: np_div_vec_def np_div_def)

lemma foldl_np_add_Fin:
  "foldl np_add (Fin c) (map2 np_mul (map Fin a) (map Fin b)) = Fin (c + sum_list (map2 (*) a b))"
proof (induction a arbitrary: b c)
  case Nil
  then show ?case by simp
next
  case (Cons x a)
  then show ?case by (cases b) (simp_all add: add.assoc)
qed

lemma np_dot_Fin: "np_dot (map Fin a) (map Fin b) = Fin (dot_real a b)"
  by (simp add: np_dot_def dot_real_def foldl_np_add_Fin)

lemma dot_real_scaled:
  "dot_real (map (\<lambda>x. x / n) a) (map (\<lambda>x. x / m) b) = dot_real a b / (n * m)"
proof (induction a arbitrary: b)
  case Nil
  then show ?case by (simp add: dot_real_def)
next
  case (Cons x a)
  show ?case
  proof (cases b)
    case Nil
    then show ?thesis by (simp add: dot_real_def)
  next
    case (Cons y b')
    have "dot_real (map (\<lambda>x. x / n) a) (map (\<lambda>x. x / m) b') = dot_real a b' / (n * m)"
      by (rule Cons.IH)
    then show ?thesis
      using Cons by (simp add: dot_real_def add_divide_distrib)
  qed
qed

lemma dot_real_commute: "dot_real a b = dot_real b a"
proof (induction a arbitrary: b)
  case Nil
  then show ?case by (simp add: dot_real_def)
next
  case (Cons x a)
  then show ?case by (cases b) (simp_all add: dot_real_def mult.commute)
qed

lemma normalised_dot:
  assumes "np_norm r \<noteq> 0" and "np_norm q \<noteq> 0"
  shows "np_dot (np_div_vec r (np_norm r)) (np_div_vec q (np_norm q))
           = Fin (dot_real q r / (np_norm q * np_norm r))"
proof -
  have "np_dot (np_div_vec r (np_norm r)) (np_div_vec q (np_norm q))
          = np_dot (map Fin (map (\<lambda>x. x / np_norm r) r)) (map Fin (map (\<lambda>x. x / np_norm q) q))"
    using assms by (simp add: np_div_vec_nonzero comp_def)
  also have "\<dots> = Fin (dot_real r q / (np_norm r * np_norm q))"
    by (simp only: np_dot_Fin dot_real_scaled)
  finally show ?thesis by (simp add: dot_real_commute [of r q] mult.commute)
qed

lemma cosine_similarity_nonzero:
  assumes "length q = length r" and "np_norm r \<noteq> 0" and "np_norm q \<noteq> 0"
  shows "cosine_similarity q r = Inr (Fin (dot_real q r / (np_norm q * np_norm r)))"
  using assms by (simp add: cosine_similarity_def np_div_def)

lemma norm_zero_all_zero:
  assumes "np_norm v = 0"
  shows "\<forall>x \<in> set v. x = 0"
proof -
  have "sum_list (map (\<lambda>x. x * x) v) = 0"
    using assms by (simp add: np_norm_def)
  moreover have "\<And>y. y \<in> set (map (\<lambda>x. x * x) v) \<Longrightarrow> 0 \<le> y" by auto
  ultimately have "\<forall>y \<in> set (map (\<lambda>x. x * x) v). y = 0"
    by (simp only: sum_list_nonneg_eq_0_iff)
  then show ?thesis by auto
qed

lemma np_div_vec_zero_norm:
  "np_norm v = 0 \<Longrightarrow> np_div_vec v (np_norm v) = replicate (length v) NaN"
  using norm_zero_all_zero [of v]
  by (simp add: np_div_vec_def np_div_def map_replicate_const [symmetric] cong: map_cong)

lemma np_add_NaN_right: "np_add a NaN = NaN"
  by (cases a) simp_all

lemma np_mul_NaN_right: "np_mul a NaN = NaN"
  by (cases a) simp_all

lemma foldl_np_add_NaN: "foldl np_add NaN zs = NaN"
  by (induction zs) simp_all

lemma foldl_np_add_has_NaN: "NaN \<in> set zs \<Longrightarrow> foldl np_add acc zs = NaN"
  by (induction zs arbitrary: acc) (auto simp: np_add_NaN_right foldl_np_add_NaN)

lemma np_dot_NaN_left:
  assumes "n > 0" and "length b = n"
  shows "np_dot (replicate n NaN) b = NaN"
proof -
  obtain y b' where b: "b = y # b'" using assms by (cases b) auto
  obtain k where n: "n = Suc k" using assms by (cases n) auto
  show ?thesis
    unfolding np_dot_def by (rule foldl_np_add_has_NaN) (simp add: b n)
qed

lemma np_dot_NaN_right:
  assumes "n > 0" and "length a = n"
  shows "np_dot a (replicate n NaN) = NaN"
proof -
  obtain y a' where a: "a = y # a'" using assms by (cases a) auto
  obtain k where n: "n = Suc k" using assms by (cases n) auto
  show ?thesis
    unfolding np_dot_def by (rule foldl_np_add_has_NaN) (simp add: a n np_mul_NaN_right)
qed

lemma length_np_div_vec: "length (np_div_vec v n) = length v"
  by (simp add: np_div_vec_def)

lemma cosine_similarity_batch_ok:
  assumes "embeddings \<noteq> []" and "\<forall>row \<in> set embeddings. length row = length q"
  shows "cosine_similarity_batch q embeddings
           = Inr (map (\<lambda>row. np_dot (np_div_vec row (np_norm row)) (np_div_vec q (np_norm q))) embeddings)"
  using assms by (simp add: cosine_similarity_batch_def Let_def comp_def)

section \<open>The two loops over the results dictionary\<close>

lemma dict_set_new: "k \<notin> fst ` set d \<Longrightarrow> dict_set d k v = d @ [(k, v)]"
  by (induction d) auto

lemma dict_set_at:
  "distinct (map fst d) \<Longrightarrow> i < length d \<Longrightarrow> fst (d ! i) = k \<Longrightarrow> dict_set d k v = d[i := (k, v)]"
proof (induction d arbitrary: i)
  case Nil
  then show ?case by simp
next
  case (Cons a d)
  show ?case
  proof (cases i)
    case 0
    with Cons.prems show ?thesis by (cases a) simp
  next
    case (Suc j)
    with Cons.prems have j: "j < length d" and k: "fst (d ! j) = k" by simp_all
    from j have m: "fst (d ! j) \<in> fst ` set d" by simp
    from Cons.prems(1) have "fst a \<notin> fst ` set d" by simp
    with m k have "fst a \<noteq> k" by metis
    with Cons Suc show ?thesis by (cases a) simp
  qed
qed

lemma dict_get_at:
  "distinct (map fst d) \<Longrightarrow> i < length d \<Longrightarrow> fst (d ! i) = k \<Longrightarrow> dict_get d k = Some (snd (d ! i))"
proof -
  assume d: "distinct (map fst d)" and i: "i < length d" and k: "fst (d ! i) = k"
  from i have "d ! i \<in> set d" by simp
  with k have "(k, snd (d ! i)) \<in> set d" by (metis prod.collapse)
  with d show ?thesis by (simp add: dict_get_def)
qed

lemma keys_dict_of: "map fst (dict_of all_faqs f n) = map (\<lambda>j. faq_id (all_faqs ! j)) [0..<n]"
  by (simp add: dict_of_def comp_def)

lemma keys_dict_of_take:
  "n \<le> length all_faqs \<Longrightarrow> map fst (dict_of all_faqs f n) = take n (map faq_id all_faqs)"
  by (auto simp: keys_dict_of intro!: nth_equalityI)

lemma distinct_dict_of:
  "distinct (map faq_id all_faqs) \<Longrightarrow> n \<le> length all_faqs \<Longrightarrow> distinct (map fst (dict_of all_faqs f n))"
  by (simp add: keys_dict_of_take distinct_take)

lemma length_dict_of: "length (dict_of all_faqs f n) = n"
  by (simp add: dict_of_def)

lemma dict_of_cong: "(\<And>j. j < n \<Longrightarrow> f j = g j) \<Longrightarrow> dict_of all_faqs f n = dict_of all_faqs g n"
  by (simp add: dict_of_def)

lemma dict_of_Suc:
  "dict_of all_faqs f (Suc n) = dict_of all_faqs f n @ [(faq_id (all_faqs ! n), (all_faqs ! n, f n))]"
  by (simp add: dict_of_def)

lemma nth_notin_take: "distinct xs \<Longrightarrow> i < length xs \<Longrightarrow> xs ! i \<notin> set (take i xs)"
  by (auto simp: in_set_conv_nth distinct_conv_nth)

lemma dict_set_dict_of_new:
  assumes "distinct (map faq_id all_faqs)" and "i < length all_faqs"
  shows "dict_set (dict_of all_faqs f i) (faq_id (all_faqs ! i)) (all_faqs ! i, v)
           = dict_of all_faqs (f(i := v)) (Suc i)"
proof -
  have "map faq_id all_faqs ! i \<notin> set (take i (map faq_id all_faqs))"
    using assms by (intro nth_notin_take) simp_all
  then have "faq_id (all_faqs ! i) \<notin> set (map fst (dict_of all_faqs f i))"
    using assms by (simp add: keys_dict_of_take)
  then have "faq_id (all_faqs ! i) \<notin> fst ` set (dict_of all_faqs f i)"
    by simp
  then have e: "dict_set (dict_of all_faqs f i) (faq_id (all_faqs ! i)) (all_faqs ! i, v)
           = dict_of all_faqs f i @ [(faq_id (all_faqs ! i), (all_faqs ! i, v))]"
    by (rule dict_set_new)
  have c: "dict_of all_faqs (f(i := v)) i = dict_of all_faqs f i"
    by (rule dict_of_cong) simp
  show ?thesis
    unfolding e dict_of_Suc c by simp
qed

lemma dict_set_dict_of_present:
  assumes "distinct (map faq_id all_faqs)" and "i < n" and "n \<le> length all_faqs"
  shows "dict_set (dict_of all_faqs f n) (faq_id (all_faqs ! i)) (all_faqs ! i, v)
           = dict_of all_faqs (f(i := v)) n"
proof -
  have "dict_set (dict_of all_faqs f n) (faq_id (all_faqs ! i)) (all_faqs ! i, v)
          = (dict_of all_faqs f n)[i := (faq_id (all_faqs ! i), (all_faqs ! i, v))]"
    using assms by (intro dict_set_at distinct_dict_of) (simp_all add: dict_of_def)
  also have "\<dots> = dict_of all_faqs (f(i := v)) n"
    using assms by (intro nth_equalityI) (auto simp: dict_of_def nth_list_update)
  finally show ?thesis .
qed

lemma dict_get_dict_of:
  assumes "distinct (map faq_id all_faqs)" and "i < n" and "n \<le> length all_faqs"
  shows "dict_get (dict_of all_faqs f n) (faq_id (all_faqs ! i)) = Some (all_faqs ! i, f i)"
proof -
  have "dict_get (dict_of all_faqs f n) (faq_id (all_faqs ! i)) = Some (snd (dict_of all_faqs f n ! i))"
    using assms by (intro dict_get_at distinct_dict_of) (simp_all add: dict_of_def)
  then show ?thesis using assms by (simp add: dict_of_def)
qed

lemma add_question_matches_dict_of:
  assumes "distinct (map faq_id all_faqs)" and "i + length scores \<le> length all_faqs"
  shows "add_question_matches all_faqs i scores (dict_of all_faqs f i)
           = Inr (dict_of all_faqs (\<lambda>j. if j < i then f j else scores ! (j - i)) (i + length scores))"
  using assms(2)
proof (induction scores arbitrary: i f)
  case Nil
  have "dict_of all_faqs f i = dict_of all_faqs (\<lambda>j. if j < i then f j else [] ! (j - i)) i"
    by (rule dict_of_cong) simp
  then show ?case by simp
next
  case (Cons s scores)
  then have i: "i < length all_faqs" and le: "Suc i + length scores \<le> length all_faqs" by simp_all
  have "add_question_matches all_faqs i (s # scores) (dict_of all_faqs f i)
          = add_question_matches all_faqs (Suc i) scores (dict_of all_faqs (f(i := s)) (Suc i))"
    using i by (simp add: dict_set_dict_of_new [OF assms(1) i])
  also have "\<dots> = Inr (dict_of all_faqs (\<lambda>j. if j < Suc i then (f(i := s)) j else scores ! (j - Suc i))
                        (Suc i + length scores))"
    by (rule Cons.IH [OF le])
  also have "dict_of all_faqs (\<lambda>j. if j < Suc i then (f(i := s)) j else scores ! (j - Suc i))
                        (Suc i + length scores)
           = dict_of all_faqs (\<lambda>j. if j < i then f j else (s # scores) ! (j - i)) (i + length (s # scores))"
    by (simp, rule dict_of_cong) (auto simp: nth_Cons' less_Suc_eq)
  finally show ?case .
qed

lemma merge_answer_matches_dict_of:
  assumes "distinct (map faq_id all_faqs)" and "n \<le> length all_faqs" and "i + length scores \<le> n"
  shows "merge_answer_matches all_faqs i scores (dict_of all_faqs f n)
           = Inr (dict_of all_faqs
                   (\<lambda>j. if i \<le> j \<and> j < i + length scores then py_max (f j) (scores ! (j - i)) else f j) n)"
  using assms(3)
proof (induction scores arbitrary: i f)
  case Nil
  have "dict_of all_faqs f n
          = dict_of all_faqs (\<lambda>j. if i \<le> j \<and> j < i then py_max (f j) ([] ! (j - i)) else f j) n"
    by (rule dict_of_cong) auto
  then show ?case by simp
next
  case (Cons s scores)
  then have i: "i < n" and le: "Suc i + length scores \<le> n" by simp_all
  have il: "i < length all_faqs" using i assms(2) by simp
  have step: "(case dict_get (dict_of all_faqs f n) (faq_id (all_faqs ! i)) of
                Some (_, existing_score) \<Rightarrow>
                  if np_gt s existing_score
                  then dict_set (dict_of all_faqs f n) (faq_id (all_faqs ! i)) (all_faqs ! i, s)
                  else dict_of all_faqs f n
              | None \<Rightarrow> dict_set (dict_of all_faqs f n) (faq_id (all_faqs ! i)) (all_faqs ! i, s))
            = dict_of all_faqs (f(i := py_max (f i) s)) n"
  proof (cases "np_gt s (f i)")
    case True
    then show ?thesis
      by (simp add: dict_get_dict_of [OF assms(1) i assms(2)]
          dict_set_dict_of_present [OF assms(1) i assms(2)] py_max_def)
  next
    case False
    then have "f(i := py_max (f i) s) = f" by (simp add: py_max_def)
    with False show ?thesis
      by (simp add: dict_get_dict_of [OF assms(1) i assms(2)])
  qed
  have "merge_answer_matches all_faqs i (s # scores) (dict_of all_faqs f n)
          = merge_answer_matches all_faqs (Suc i) scores (dict_of all_faqs (f(i := py_max (f i) s)) n)"
    using il by (simp only: merge_answer_matches.simps step if_True)
  also have "\<dots> = Inr (dict_of all_faqs
                   (\<lambda>j. if Suc i \<le> j \<and> j < Suc i + length scores
                        then py_max ((f(i := py_max (f i) s)) j) (scores ! (j - Suc i))
                        else (f(i := py_max (f i) s)) j) n)"
    by (rule Cons.IH [OF le])
  also have "dict_of all_faqs
                   (\<lambda>j. if Suc i \<le> j \<and> j < Suc i + length scores
                        then py_max ((f(i := py_max (f i) s)) j) (scores ! (j - Suc i))
                        else (f(i := py_max (f i) s)) j) n
           = dict_of all_faqs
                   (\<lambda>j. if i \<le> j \<and> j < i + length (s # scores)
                        then py_max (f j) ((s # scores) ! (j - i)) else f j) n"
    by (rule dict_of_cong) (auto simp: nth_Cons')
  finally show ?case .
qed

section \<open>Sorting by score\<close>

lemma np_gt_asym: "np_gt a b \<Longrightarrow> \<not> np_gt b a"
  by (cases a; cases b) simp_all

lemma np_ge_trans: "np_ge a b \<Longrightarrow> np_ge b c \<Longrightarrow> np_ge a c"
  by (cases a; cases b; cases c) (simp_all add: np_ge_def)

lemma np_ge_of_not_lt: "a \<noteq> NaN \<Longrightarrow> b \<noteq> NaN \<Longrightarrow> \<not> np_lt a b \<Longrightarrow> np_ge a b"
  by (simp add: np_ge_def np_lt_def)

lemma np_ge_of_lt: "np_lt a b \<Longrightarrow> np_ge b a"
  by (cases a; cases b) (simp_all add: np_ge_def np_lt_def)

lemma set_insert_desc: "set (insert_desc x ys) = insert x (set ys)"
  by (induction ys) auto

lemma mset_insert_desc: "mset (insert_desc x ys) = add_mset x (mset ys)"
  by (induction ys) auto

lemma mset_stable_sort_desc: "mset (stable_sort_desc xs) = mset xs"
  by (induction xs) (simp_all add: stable_sort_desc_def mset_insert_desc)

lemma set_stable_sort_desc: "set (stable_sort_desc xs) = set xs"
  by (metis mset_stable_sort_desc set_mset_mset)

lemma length_stable_sort_desc: "length (stable_sort_desc xs) = length xs"
  by (metis mset_stable_sort_desc size_mset)

lemma sorted_insert_desc:
  assumes "sorted_wrt (\<lambda>x y. np_ge (r_score x) (r_score y)) ys"
    and "r_score x \<noteq> NaN" and "\<forall>y \<in> set ys. r_score y \<noteq> NaN"
  shows "sorted_wrt (\<lambda>x y. np_ge (r_score x) (r_score y)) (insert_desc x ys)"
  using assms
proof (induction ys)
  case Nil
  then show ?case by simp
next
  case (Cons y ys)
  show ?case
  proof (cases "np_lt (r_score x) (r_score y)")
    case True
    then have "np_ge (r_score y) (r_score x)" by (rule np_ge_of_lt)
    with True Cons show ?thesis by (auto simp: set_insert_desc)
  next
    case False
    with Cons.prems have xy: "np_ge (r_score x) (r_score y)"
      by (intro np_ge_of_not_lt) simp_all
    have "\<forall>z \<in> set ys. np_ge (r_score x) (r_score z)"
      using Cons.prems(1) xy by (auto intro: np_ge_trans)
    with False xy Cons.prems(1) show ?thesis by simp
  qed
qed

lemma sorted_stable_sort_desc:
  "\<forall>x \<in> set xs. r_score x \<noteq> NaN \<Longrightarrow>
   sorted_wrt (\<lambda>x y. np_ge (r_score x) (r_score y)) (stable_sort_desc xs)"
proof (induction xs)
  case Nil
  then show ?case by (simp add: stable_sort_desc_def)
next
  case (Cons x xs)
  then have "sorted_wrt (\<lambda>x y. np_ge (r_score x) (r_score y)) (stable_sort_desc xs)" by simp
  then have "sorted_wrt (\<lambda>x y. np_ge (r_score x) (r_score y)) (insert_desc x (stable_sort_desc xs))"
    using Cons.prems by (intro sorted_insert_desc) (simp_all add: set_stable_sort_desc)
  then show ?case by (simp add: stable_sort_desc_def)
qed

lemma sort_permutes_stable_sort_desc: "sort_permutes stable_sort_desc"
  by (simp add: sort_permutes_def mset_stable_sort_desc)

lemma sort_contract_stable_sort_desc: "sort_contract stable_sort_desc"
  by (simp add: sort_contract_def sort_permutes_stable_sort_desc)

lemma sort_permutes_mset: "sort_permutes list_sort \<Longrightarrow> mset (list_sort xs) = mset xs"
  by (simp add: sort_permutes_def)

lemma sort_permutes_set: "sort_permutes list_sort \<Longrightarrow> set (list_sort xs) = set xs"
  by (metis sort_permutes_mset set_mset_mset)

lemma sort_permutes_length: "sort_permutes list_sort \<Longrightarrow> length (list_sort xs) = length xs"
  by (metis sort_permutes_mset size_mset)

lemma sort_permutes_single:
  assumes "sort_permutes list_sort"
  shows "list_sort [x] = [x]"
proof -
  from assms have "mset (list_sort [x]) = {#x#}" by (simp add: sort_permutes_mset)
  then show ?thesis by simp
qed

text \<open>
  A list of two or more results that holds a NaN score is not in the promised order,
  wherever the NaN stands: \<open>>=\<close> is false with a NaN on either side.
\<close>

lemma nan_not_highest_first:
  assumes mem: "x \<in> set xs" and nan: "r_score x = NaN" and two: "2 \<le> length xs"
  shows "\<not> highest_first xs"
proof
  assume "highest_first xs"
  then have s: "sorted_wrt (\<lambda>x y. np_ge (r_score x) (r_score y)) xs"
    by (simp add: highest_first_def)
  from mem obtain k where k: "k < length xs" and x: "xs ! k = x"
    by (auto simp: in_set_conv_nth)
  show False
  proof (cases "k = 0")
    case True
    from two have "np_ge (r_score (xs ! 0)) (r_score (xs ! 1))"
      by (intro sorted_wrt_nth_less [OF s]) simp_all
    with True x nan show False by (simp add: np_ge_def)
  next
    case False
    with k have "np_ge (r_score (xs ! 0)) (r_score (xs ! k))"
      by (intro sorted_wrt_nth_less [OF s]) simp_all
    with x nan show False by (simp add: np_ge_def)
  qed
qed

lemma sorted_wrt_py_slice_to: "sorted_wrt P xs \<Longrightarrow> sorted_wrt P (py_slice_to xs k)"
  by (simp add: py_slice_to_def sorted_wrt_take)

lemma get_embeddings_single: "get_embeddings api [query] = api [query]"
  by (subst get_embeddings.simps) (simp add: get_embeddings.simps [of api "[]"] split: sum.splits)

lemma cosine_similarity_batch_rows:
  assumes "embeddings \<noteq> []" and "\<forall>row \<in> set embeddings. length row = length q"
  shows "cosine_similarity_batch q embeddings = Inr (map (row_similarity q) embeddings)"
  using assms by (simp add: cosine_similarity_batch_ok row_similarity_def)

text \<open>
  What \<open>search\<close> computes on a well-formed index, whatever the norms and whatever
  \<open>list.sort\<close> does.
\<close>

lemma faq_search_merged:
  assumes ok: "index_ok svc (length qe)" and api: "api [query] = Inr (qe # others)"
  shows "faq_search list_sort api svc query limit =
           Inr (py_slice_to (list_sort
                  (map (\<lambda>j. to_result (fs_faqs svc ! j,
                          py_max (row_similarity qe (fs_question_embeddings svc ! j))
                                 (row_similarity qe (fs_answer_embeddings svc ! j))))
                       [0..<length (fs_faqs svc)])) limit)"
proof -
  let ?F = "fs_faqs svc" and ?Q = "fs_question_embeddings svc" and ?A = "fs_answer_embeddings svc"
  let ?n = "length ?F"
  from ok have d: "distinct (map faq_id ?F)" and lq: "length ?Q = ?n" and la: "length ?A = ?n"
    and ne: "?F \<noteq> []" and rq: "\<forall>row \<in> set ?Q. length row = length qe"
    and ra: "\<forall>row \<in> set ?A. length row = length qe"
    by (simp_all add: index_ok_def)
  from ne lq la have qne: "?Q \<noteq> []" and ane: "?A \<noteq> []" by auto
  have bq: "cosine_similarity_batch qe ?Q = Inr (map (row_similarity qe) ?Q)"
    using qne rq by (rule cosine_similarity_batch_rows)
  have ba: "cosine_similarity_batch qe ?A = Inr (map (row_similarity qe) ?A)"
    using ane ra by (rule cosine_similarity_batch_rows)
  have e: "([] :: results_dict) = dict_of ?F (\<lambda>j. NaN) 0" by (simp add: dict_of_def)
  have l1: "add_question_matches ?F 0 (map (row_similarity qe) ?Q) []
              = Inr (dict_of ?F (\<lambda>j. map (row_similarity qe) ?Q ! j) ?n)"
    unfolding e using add_question_matches_dict_of [OF d, of 0 "map (row_similarity qe) ?Q" "\<lambda>j. NaN"] lq
    by simp
  have l2: "merge_answer_matches ?F 0 (map (row_similarity qe) ?A)
                (dict_of ?F (\<lambda>j. map (row_similarity qe) ?Q ! j) ?n)
              = Inr (dict_of ?F (\<lambda>j. py_max (row_similarity qe (?Q ! j)) (row_similarity qe (?A ! j))) ?n)"
  proof -
    have "merge_answer_matches ?F 0 (map (row_similarity qe) ?A)
                (dict_of ?F (\<lambda>j. map (row_similarity qe) ?Q ! j) ?n)
            = Inr (dict_of ?F (\<lambda>j. if 0 \<le> j \<and> j < 0 + length (map (row_similarity qe) ?A)
                                   then py_max (map (row_similarity qe) ?Q ! j)
                                          (map (row_similarity qe) ?A ! (j - 0))
                                   else map (row_similarity qe) ?Q ! j) ?n)"
      by (rule merge_answer_matches_dict_of [OF d]) (simp_all add: la)
    also have "dict_of ?F (\<lambda>j. if 0 \<le> j \<and> j < 0 + length (map (row_similarity qe) ?A)
                                   then py_max (map (row_similarity qe) ?Q ! j)
                                          (map (row_similarity qe) ?A ! (j - 0))
                                   else map (row_similarity qe) ?Q ! j) ?n
                = dict_of ?F (\<lambda>j. py_max (row_similarity qe (?Q ! j)) (row_similarity qe (?A ! j))) ?n"
      by (rule dict_of_cong) (simp add: la lq)
    finally show ?thesis .
  qed
  have m: "map (to_result \<circ> snd)
             (dict_of ?F (\<lambda>j. py_max (row_similarity qe (?Q ! j)) (row_similarity qe (?A ! j))) ?n)
           = map (\<lambda>j. to_result (?F ! j, py_max (row_similarity qe (?Q ! j)) (row_similarity qe (?A ! j))))
               [0..<?n]"
    by (simp add: dict_of_def comp_def)
  show ?thesis
    unfolding faq_search_def get_embeddings_single api
    by (simp add: bq ba l1 l2 m)
qed

section \<open>FAQ search\<close>

lemma row_similarity_nonzero:
  assumes "length q = length row" and "np_norm row \<noteq> 0" and "np_norm q \<noteq> 0"
  shows "row_similarity q row = Fin (dot_real q row / (np_norm q * np_norm row))"
    and "cosine_similarity q row = Inr (row_similarity q row)"
  using assms by (simp_all add: row_similarity_def normalised_dot cosine_similarity_nonzero)

lemma py_max_Fin: "py_max (Fin a) (Fin b) = Fin (max a b)"
  by (simp add: py_max_def max_def)

lemma row_similarity_zero_row:
  assumes "length row = length q" and "q \<noteq> []" and "np_norm row = 0"
  shows "row_similarity q row = NaN"
proof -
  have "np_div_vec row (np_norm row) = replicate (length q) NaN"
    using assms np_div_vec_zero_norm [of row] by simp
  moreover have "np_dot (replicate (length q) NaN) (np_div_vec q (np_norm q)) = NaN"
    using assms by (intro np_dot_NaN_left) (simp_all add: length_np_div_vec)
  ultimately show ?thesis by (simp add: row_similarity_def)
qed

lemma row_similarity_zero_query:
  assumes "length row = length q" and "q \<noteq> []" and "np_norm q = 0"
  shows "row_similarity q row = NaN"
proof -
  have "np_div_vec q (np_norm q) = replicate (length q) NaN"
    using assms np_div_vec_zero_norm [of q] by simp
  moreover have "np_dot (np_div_vec row (np_norm row)) (replicate (length q) NaN) = NaN"
    using assms by (intro np_dot_NaN_right) (simp_all add: length_np_div_vec)
  ultimately show ?thesis by (simp add: row_similarity_def)
qed

lemma py_max_NaN_left: "py_max NaN b = NaN"
  by (cases b) (simp_all add: py_max_def)

lemma py_max_NaN_right: "py_max a NaN = a"
  by (simp add: py_max_def)

lemma dot_real_zero_right: "\<forall>x \<in> set b. x = 0 \<Longrightarrow> dot_real a b = 0"
proof (induction a arbitrary: b)
  case Nil
  then show ?case by (simp add: dot_real_def)
next
  case (Cons x a)
  then show ?case by (cases b) (simp_all add: dot_real_def)
qed

lemma cosine_similarity_row_similarity:
  assumes len: "length row = length q" and dim: "q \<noteq> []"
  shows "cosine_similarity q row = Inr (row_similarity q row)"
proof (cases "np_norm row = 0 \<or> np_norm q = 0")
  case False
  then show ?thesis
    using len by (simp add: row_similarity_nonzero)
next
  case True
  then have n: "row_similarity q row = NaN"
    using row_similarity_zero_row [OF len dim] row_similarity_zero_query [OF len dim] by blast
  from True have "dot_real q row = 0"
  proof
    assume "np_norm row = 0"
    then show ?thesis by (intro dot_real_zero_right norm_zero_all_zero)
  next
    assume "np_norm q = 0"
    then have "dot_real row q = 0" by (intro dot_real_zero_right norm_zero_all_zero)
    then show ?thesis by (simp add: dot_real_commute [of q row])
  qed
  moreover from True have "np_norm q * np_norm row = 0" by auto
  ultimately show ?thesis
    using len by (simp add: cosine_similarity_def np_div_def n)
qed

lemma np_norm_primitive: "np_norm v = sqrt (\<Sum>x\<leftarrow>v. x\<^sup>2)"
  by (simp add: np_norm_def power2_eq_square)

lemma init_empty_index:
  "faq_service_init api [] Absent =
     Inr (empty_index,
          Content (JObject [(''questions'', tolist []), (''answers'', tolist []),
                            (''metadata'', JArray [])]))"
  by (simp add: faq_service_init_def cache_exists_def add_ids_def generate_and_cache_embeddings_def
      get_embeddings.simps [of api "[]"] empty_index_def)

lemma search_empty_index:
  assumes "api [query] = Inr (qe # others)"
  shows "faq_search list_sort api empty_index query limit =
           Inl (AxisError ''axis 1 is out of bounds for array of dimension 1'')"
  unfolding faq_search_def get_embeddings_single assms
  by (simp add: empty_index_def cosine_similarity_batch_def Let_def)

text \<open>
  The regular case: a well-formed index in which the query and every embedding have a
  non-zero norm, and a \<open>list.sort\<close> that keeps its contract. Record \<open>i\<close> gets the
  greater of the two cosines, each the dot product over the product of the Euclidean
  norms; the results are these records in descending order of score, equal scores in the
  order of the records, cut to the first \<open>limit\<close> of them when \<open>limit\<close> is not negative.
\<close>

lemma search_regular_index:
  assumes ok: "index_ok svc (length qe)"
    and api: "api [query] = Inr (qe # others)"
    and sort: "sort_contract list_sort"
    and nq: "np_norm qe \<noteq> 0"
    and nr: "\<forall>row \<in> set (fs_question_embeddings svc) \<union> set (fs_answer_embeddings svc).
                np_norm row \<noteq> 0"
  shows "\<exists>merged.
     length merged = length (fs_faqs svc)
     \<and> (\<forall>i < length (fs_faqs svc). \<exists>a b.
           a = (\<Sum>(x, y)\<leftarrow>zip qe (fs_question_embeddings svc ! i). x * y)
                 / (sqrt (\<Sum>x\<leftarrow>qe. x\<^sup>2) * sqrt (\<Sum>x\<leftarrow>fs_question_embeddings svc ! i. x\<^sup>2))
         \<and> b = (\<Sum>(x, y)\<leftarrow>zip qe (fs_answer_embeddings svc ! i). x * y)
                 / (sqrt (\<Sum>x\<leftarrow>qe. x\<^sup>2) * sqrt (\<Sum>x\<leftarrow>fs_answer_embeddings svc ! i. x\<^sup>2))
         \<and> cosine_similarity qe (fs_question_embeddings svc ! i) = Inr (Fin a)
         \<and> cosine_similarity qe (fs_answer_embeddings svc ! i) = Inr (Fin b)
         \<and> merged ! i = to_result (fs_faqs svc ! i, Fin (max a b)))
     \<and> faq_search list_sort api svc query limit = Inr (py_slice_to (stable_sort_desc merged) limit)
     \<and> mset (stable_sort_desc merged) = mset merged
     \<and> highest_first (stable_sort_desc merged)
     \<and> highest_first (py_slice_to (stable_sort_desc merged) limit)
     \<and> (0 \<le> limit \<longrightarrow>
          py_slice_to (stable_sort_desc merged) limit = take (nat limit) (stable_sort_desc merged)
          \<and> int (length (py_slice_to (stable_sort_desc merged) limit)) \<le> limit)"
proof -
  let ?F = "fs_faqs svc" and ?Q = "fs_question_embeddings svc" and ?A = "fs_answer_embeddings svc"
  let ?n = "length ?F"
  let ?merged = "map (\<lambda>j. to_result (?F ! j, py_max (row_similarity qe (?Q ! j)) (row_similarity qe (?A ! j))))
                   [0..<?n]"
  from ok have lq: "length ?Q = ?n" and la: "length ?A = ?n"
    and rq: "\<forall>row \<in> set ?Q. length row = length qe"
    and ra: "\<forall>row \<in> set ?A. length row = length qe"
    by (simp_all add: index_ok_def)
  have rows: "length (?Q ! i) = length qe \<and> length (?A ! i) = length qe" if "i < ?n" for i
    using that lq la rq ra by (metis nth_mem)
  have prim: "dot_real qe r / (np_norm qe * np_norm r)
                = (\<Sum>(x, y)\<leftarrow>zip qe r. x * y) / (sqrt (\<Sum>x\<leftarrow>qe. x\<^sup>2) * sqrt (\<Sum>x\<leftarrow>r. x\<^sup>2))" for r
    by (simp add: dot_real_def np_norm_primitive)
  have fin: "\<exists>a b.
           a = (\<Sum>(x, y)\<leftarrow>zip qe (?Q ! i). x * y) / (sqrt (\<Sum>x\<leftarrow>qe. x\<^sup>2) * sqrt (\<Sum>x\<leftarrow>?Q ! i. x\<^sup>2))
         \<and> b = (\<Sum>(x, y)\<leftarrow>zip qe (?A ! i). x * y) / (sqrt (\<Sum>x\<leftarrow>qe. x\<^sup>2) * sqrt (\<Sum>x\<leftarrow>?A ! i. x\<^sup>2))
         \<and> cosine_similarity qe (?Q ! i) = Inr (Fin a)
         \<and> cosine_similarity qe (?A ! i) = Inr (Fin b)
         \<and> ?merged ! i = to_result (?F ! i, Fin (max a b))" if i: "i < ?n" for i
  proof -
    from i lq la have "?Q ! i \<in> set ?Q" and "?A ! i \<in> set ?A" by simp_all
    with nr have nqi: "np_norm (?Q ! i) \<noteq> 0" and nai: "np_norm (?A ! i) \<noteq> 0" by auto
    from rows [OF i] have lqi: "length qe = length (?Q ! i)" and lai: "length qe = length (?A ! i)"
      by simp_all
    note q = row_similarity_nonzero [OF lqi nqi nq]
    note a = row_similarity_nonzero [OF lai nai nq]
    show ?thesis
      using i by (simp add: q a py_max_Fin flip: prim)
  qed
  have scores: "\<forall>x \<in> set ?merged. r_score x \<noteq> NaN"
  proof
    fix x assume "x \<in> set ?merged"
    then obtain i where i: "i < ?n" and x: "x = ?merged ! i"
      by (auto simp: in_set_conv_nth)
    from fin [OF i] x show "r_score x \<noteq> NaN" by (auto simp: to_result_def)
  qed
  from sort scores have srt: "list_sort ?merged = stable_sort_desc ?merged"
    by (simp add: sort_contract_def)
  have search: "faq_search list_sort api svc query limit = Inr (py_slice_to (stable_sort_desc ?merged) limit)"
    using faq_search_merged [where list_sort = list_sort and api = api and limit = limit, OF ok api] srt
    by simp
  have sorted: "highest_first (stable_sort_desc ?merged)"
    unfolding highest_first_def using scores by (rule sorted_stable_sort_desc)
  have sorted': "highest_first (py_slice_to (stable_sort_desc ?merged) limit)"
    using sorted unfolding highest_first_def by (rule sorted_wrt_py_slice_to)
  have trunc: "0 \<le> limit \<longrightarrow>
          py_slice_to (stable_sort_desc ?merged) limit = take (nat limit) (stable_sort_desc ?merged)
          \<and> int (length (py_slice_to (stable_sort_desc ?merged) limit)) \<le> limit"
    by (auto simp: py_slice_to_def)
  have len: "length ?merged = ?n" by simp
  show ?thesis
    using len fin search mset_stable_sort_desc [of ?merged] sorted sorted' trunc
    by (intro exI [of _ ?merged] conjI allI impI) blast+
qed

text \<open>
  C1. \<open>search\<close> does not return a list sorted by descending score for every index
  and every query. On every well-formed index it gives record \<open>j\<close> the score
  \<open>max(cq, ca)\<close> of the two values of \<open>cosine_similarity\<close>, with Python's \<open>max\<close>,
  and returns a permutation of these records. But when the index holds two records or
  more, the question embedding of one of them has zero norm and \<open>limit\<close> does not cut
  the list, that record's score is NaN and the list returned is not sorted highest
  first, whatever order \<open>list.sort\<close> leaves; the docstring of \<open>search\<close> promises
  that order. And on the index that \<open>__init__\<close> builds from an FAQ file without
  records, \<open>search\<close> raises numpy's \<open>AxisError\<close> and returns no list.
\<close>

theorem search_not_highest_first:
  assumes ok: "index_ok svc (length qe)"
    and api: "api [query] = Inr (qe # others)"
    and dim: "qe \<noteq> []"
    and perm: "sort_permutes list_sort"
    and i: "i < length (fs_faqs svc)"
    and zero: "np_norm (fs_question_embeddings svc ! i) = 0"
    and two: "2 \<le> length (fs_faqs svc)"
    and lim: "int (length (fs_faqs svc)) \<le> limit"
  shows "(\<exists>merged results.
       length merged = length (fs_faqs svc)
     \<and> (\<forall>j < length (fs_faqs svc). \<exists>cq ca.
           cosine_similarity qe (fs_question_embeddings svc ! j) = Inr cq
         \<and> cosine_similarity qe (fs_answer_embeddings svc ! j) = Inr ca
         \<and> merged ! j = to_result (fs_faqs svc ! j, py_max cq ca))
     \<and> faq_search list_sort api svc query limit = Inr results
     \<and> mset results = mset merged
     \<and> r_score (merged ! i) = NaN
     \<and> \<not> highest_first results)
   \<and> faq_service_init api [] Absent =
       Inr (empty_index,
            Content (JObject [(''questions'', tolist []), (''answers'', tolist []),
                              (''metadata'', JArray [])]))
   \<and> faq_search list_sort api empty_index query limit =
       Inl (AxisError ''axis 1 is out of bounds for array of dimension 1'')"
proof -
  let ?F = "fs_faqs svc" and ?Q = "fs_question_embeddings svc" and ?A = "fs_answer_embeddings svc"
  let ?n = "length ?F"
  let ?merged = "map (\<lambda>j. to_result (?F ! j, py_max (row_similarity qe (?Q ! j)) (row_similarity qe (?A ! j))))
                   [0..<?n]"
  from ok have lq: "length ?Q = ?n" and la: "length ?A = ?n"
    and rq: "\<forall>row \<in> set ?Q. length row = length qe"
    and ra: "\<forall>row \<in> set ?A. length row = length qe"
    by (simp_all add: index_ok_def)
  have rows: "length (?Q ! j) = length qe \<and> length (?A ! j) = length qe" if "j < ?n" for j
    using that lq la rq ra by (metis nth_mem)
  have entry: "\<exists>cq ca.
           cosine_similarity qe (?Q ! j) = Inr cq
         \<and> cosine_similarity qe (?A ! j) = Inr ca
         \<and> ?merged ! j = to_result (?F ! j, py_max cq ca)" if j: "j < ?n" for j
    using j rows [OF j] by (simp add: cosine_similarity_row_similarity dim)
  have len: "length ?merged = ?n" by simp
  have slen: "length (list_sort ?merged) = ?n"
    by (simp add: sort_permutes_length [OF perm])
  have "faq_search list_sort api svc query limit = Inr (py_slice_to (list_sort ?merged) limit)"
    by (rule faq_search_merged [where list_sort = list_sort and api = api, OF ok api])
  moreover have "py_slice_to (list_sort ?merged) limit = list_sort ?merged"
    using lim slen by (simp add: py_slice_to_def)
  ultimately have search: "faq_search list_sort api svc query limit = Inr (list_sort ?merged)"
    by simp
  have pm: "mset (list_sort ?merged) = mset ?merged"
    by (rule sort_permutes_mset [OF perm])
  from rows [OF i] have lqi: "length (?Q ! i) = length qe" by simp
  have nan: "r_score (?merged ! i) = NaN"
    using i by (simp add: to_result_def row_similarity_zero_row [OF lqi dim zero] py_max_NaN_left)
  have "?merged ! i \<in> set ?merged"
    by (rule nth_mem) (simp add: i)
  then have mem: "?merged ! i \<in> set (list_sort ?merged)"
    by (simp add: sort_permutes_set [OF perm])
  have unsorted: "\<not> highest_first (list_sort ?merged)"
    using mem nan by (rule nan_not_highest_first) (simp add: slen two)
  have first: "\<exists>merged results.
       length merged = ?n
     \<and> (\<forall>j < ?n. \<exists>cq ca.
           cosine_similarity qe (?Q ! j) = Inr cq
         \<and> cosine_similarity qe (?A ! j) = Inr ca
         \<and> merged ! j = to_result (?F ! j, py_max cq ca))
     \<and> faq_search list_sort api svc query limit = Inr results
     \<and> mset results = mset merged
     \<and> r_score (merged ! i) = NaN
     \<and> \<not> highest_first results"
  proof (rule exI [of _ ?merged], rule exI [of _ "list_sort ?merged"], intro conjI)
    show "length ?merged = ?n" by (rule len)
    show "\<forall>j < ?n. \<exists>cq ca.
           cosine_similarity qe (?Q ! j) = Inr cq
         \<and> cosine_similarity qe (?A ! j) = Inr ca
         \<and> ?merged ! j = to_result (?F ! j, py_max cq ca)"
      using entry by blast
    show "faq_search list_sort api svc query limit = Inr (list_sort ?merged)" by (rule search)
    show "mset (list_sort ?merged) = mset ?merged" by (rule pm)
    show "r_score (?merged ! i) = NaN" by (rule nan)
    show "\<not> highest_first (list_sort ?merged)" by (rule unsorted)
  qed
  have e1: "faq_service_init api [] Absent =
       Inr (empty_index,
            Content (JObject [(''questions'', tolist []), (''answers'', tolist []),
                              (''metadata'', JArray [])]))"
    by (rule init_empty_index)
  have e2: "faq_search list_sort api empty_index query limit =
       Inl (AxisError ''axis 1 is out of bounds for array of dimension 1'')"
    using api by (rule search_empty_index)
  from first e1 e2 show ?thesis by (intro conjI)
qed

text \<open>
  C3. \<open>search\<close> does not give the score 0 to a record with an embedding of zero
  norm. On a well-formed index with embeddings of positive dimension it does return,
  whatever the norms and whatever order \<open>list.sort\<close> leaves: numpy divides by a zero
  norm without raising. But a record whose question embedding has zero norm, and every
  record when the query embedding has zero norm, gets the score NaN, which is also what
  \<open>cosine_similarity\<close> returns for these two vectors, against its docstring (a score
  between -1 and 1). A record of which only the answer embedding has zero norm keeps the
  cosine similarity of its question.
\<close>

theorem zero_norm_scores:
  assumes ok: "index_ok svc (length qe)"
    and api: "api [query] = Inr (qe # others)"
    and dim: "qe \<noteq> []"
  shows "\<exists>merged.
     length merged = length (fs_faqs svc)
     \<and> faq_search list_sort api svc query limit = Inr (py_slice_to (list_sort merged) limit)
     \<and> (\<forall>i < length (fs_faqs svc).
           r_id (merged ! i) = faq_id (fs_faqs svc ! i)
         \<and> (np_norm (fs_question_embeddings svc ! i) = 0 \<or> np_norm qe = 0
              \<longrightarrow> r_score (merged ! i) = NaN
                  \<and> cosine_similarity qe (fs_question_embeddings svc ! i) = Inr NaN)
         \<and> (np_norm (fs_question_embeddings svc ! i) \<noteq> 0 \<and> np_norm qe \<noteq> 0
              \<and> np_norm (fs_answer_embeddings svc ! i) = 0
              \<longrightarrow> cosine_similarity qe (fs_question_embeddings svc ! i) = Inr (r_score (merged ! i))
                  \<and> cosine_similarity qe (fs_answer_embeddings svc ! i) = Inr NaN
                  \<and> r_score (merged ! i) \<noteq> NaN))"
proof -
  let ?F = "fs_faqs svc" and ?Q = "fs_question_embeddings svc" and ?A = "fs_answer_embeddings svc"
  let ?n = "length ?F"
  let ?merged = "map (\<lambda>j. to_result (?F ! j, py_max (row_similarity qe (?Q ! j)) (row_similarity qe (?A ! j))))
                   [0..<?n]"
  from ok have lq: "length ?Q = ?n" and la: "length ?A = ?n"
    and rq: "\<forall>row \<in> set ?Q. length row = length qe"
    and ra: "\<forall>row \<in> set ?A. length row = length qe"
    by (simp_all add: index_ok_def)
  have search: "faq_search list_sort api svc query limit = Inr (py_slice_to (list_sort ?merged) limit)"
    by (rule faq_search_merged [where list_sort = list_sort and api = api, OF ok api])
  have entry: "r_id (?merged ! i) = faq_id (?F ! i)
         \<and> (np_norm (?Q ! i) = 0 \<or> np_norm qe = 0
              \<longrightarrow> r_score (?merged ! i) = NaN \<and> cosine_similarity qe (?Q ! i) = Inr NaN)
         \<and> (np_norm (?Q ! i) \<noteq> 0 \<and> np_norm qe \<noteq> 0 \<and> np_norm (?A ! i) = 0
              \<longrightarrow> cosine_similarity qe (?Q ! i) = Inr (r_score (?merged ! i))
                  \<and> cosine_similarity qe (?A ! i) = Inr NaN
                  \<and> r_score (?merged ! i) \<noteq> NaN)" if i: "i < ?n" for i
  proof -
    from i lq la have qi: "?Q ! i \<in> set ?Q" and ai: "?A ! i \<in> set ?A" by simp_all
    with rq ra have lqi: "length (?Q ! i) = length qe" and lai: "length (?A ! i) = length qe"
      by auto
    have s: "r_score (?merged ! i) = py_max (row_similarity qe (?Q ! i)) (row_similarity qe (?A ! i))"
      and id: "r_id (?merged ! i) = faq_id (?F ! i)"
      using i by (simp_all add: to_result_def)
    note cq = cosine_similarity_row_similarity [OF lqi dim]
    note ca = cosine_similarity_row_similarity [OF lai dim]
    have z1: "r_score (?merged ! i) = NaN \<and> cosine_similarity qe (?Q ! i) = Inr NaN"
      if "np_norm (?Q ! i) = 0"
      unfolding s cq using that by (simp add: row_similarity_zero_row [OF lqi dim] py_max_NaN_left)
    have z2: "r_score (?merged ! i) = NaN \<and> cosine_similarity qe (?Q ! i) = Inr NaN"
      if "np_norm qe = 0"
      unfolding s cq using that by (simp add: row_similarity_zero_query [OF lqi dim] py_max_NaN_left)
    have z3: "cosine_similarity qe (?Q ! i) = Inr (r_score (?merged ! i))
              \<and> cosine_similarity qe (?A ! i) = Inr NaN \<and> r_score (?merged ! i) \<noteq> NaN"
      if "np_norm (?Q ! i) \<noteq> 0" and "np_norm qe \<noteq> 0" and "np_norm (?A ! i) = 0"
      unfolding s cq ca using that
      by (simp add: row_similarity_zero_row [OF lai dim] py_max_NaN_right
          row_similarity_nonzero [OF lqi [symmetric]])
    from id z1 z2 z3 show ?thesis by blast
  qed
  have len: "length ?merged = ?n" by simp
  show ?thesis
    using len search entry by (intro exI [of _ ?merged] conjI allI impI) blast+
qed

section \<open>The index that initialisation generates\<close>

lemma get_embeddings_rows:
  assumes api: "\<And>batch. \<exists>rows. api batch = Inr rows \<and> length rows = length batch
                         \<and> (\<forall>r \<in> set rows. length r = d)"
  shows "\<exists>rows. get_embeddings api texts = Inr rows \<and> length rows = length texts
           \<and> (\<forall>r \<in> set rows. length r = d)"
proof (induction "length texts" arbitrary: texts rule: less_induct)
  case less
  show ?case
  proof (cases "texts = []")
    case True
    then show ?thesis by (simp add: get_embeddings.simps [of api "[]"])
  next
    case False
    from api [of "take 50 texts"] obtain rows where r: "api (take 50 texts) = Inr rows"
      "length rows = length (take 50 texts)" "\<forall>r \<in> set rows. length r = d"
      by blast
    from False have "length (drop 50 texts) < length texts" by simp
    from less [OF this] obtain later where l: "get_embeddings api (drop 50 texts) = Inr later"
      "length later = length (drop 50 texts)" "\<forall>r \<in> set later. length r = d"
      by blast
    have "get_embeddings api texts = Inr (rows @ later)"
      using False by (subst get_embeddings.simps) (simp add: r l)
    moreover have "length (rows @ later) = length texts"
      using r(2) l(2) by simp
    moreover have "\<forall>r \<in> set (rows @ later). length r = d"
      using r(3) l(3) by auto
    ultimately show ?thesis by blast
  qed
qed

text \<open>
  What \<open>__init__\<close> builds when it generates the embeddings with a service that returns
  one vector of dimension \<open>d\<close> for each text: a well-formed index, if there is a record.
\<close>

lemma generated_index_ok:
  assumes api: "\<And>batch. \<exists>rows. api batch = Inr rows \<and> length rows = length batch
                         \<and> (\<forall>r \<in> set rows. length r = d)"
    and "faq_data \<noteq> []"
  shows "\<exists>svc file. generate_and_cache_embeddings api (add_ids faq_data) = Inr (svc, file)
           \<and> index_ok svc d"
proof -
  from get_embeddings_rows [of api d "map faq_question (add_ids faq_data)"] api
  obtain qm where q: "get_embeddings api (map faq_question (add_ids faq_data)) = Inr qm"
    "length qm = length faq_data" "\<forall>r \<in> set qm. length r = d"
    by (auto simp: length_add_ids)
  from get_embeddings_rows [of api d "map faq_answer (add_ids faq_data)"] api
  obtain am where a: "get_embeddings api (map faq_answer (add_ids faq_data)) = Inr am"
    "length am = length faq_data" "\<forall>r \<in> set am. length r = d"
    by (auto simp: length_add_ids)
  have ne: "add_ids faq_data \<noteq> []"
    using assms(2) length_add_ids [of faq_data] by auto
  show ?thesis
    using q a ne
    by (auto simp: generate_and_cache_embeddings_def index_ok_def distinct_ids_add_ids length_add_ids)
qed

section \<open>FAQ search on small indexes\<close>

lemma add_ids_a: "add_ids (take (Suc 0) faq_data_ab) =
     [\<lparr>faq_id = ''0'', faq_question = ''How do I transfer ownership?'', faq_answer = ''Apply at the RTO.'',
       faq_category = ''rto'', faq_subcategory = []\<rparr>]"
  by (simp add: add_ids_def faq_data_ab_def get_or_empty_def str_nat_0)

lemma np_norm_34: "np_norm [3, 4] = 5" and np_norm_43: "np_norm [4, 3] = 5"
  and np_norm_05: "np_norm [0, 5] = 5" and np_norm_00: "np_norm [0, 0] = 0"
  by (simp_all add: np_norm_def real_sqrt_unique)

lemma length_faq_data_ab: "length faq_data_ab = 2"
  by (simp add: faq_data_ab_def)

lemma index_ok_ab: "index_ok index_ab (length [3::real, 4])"
  by (auto simp: index_ok_def index_ab_def distinct_ids_add_ids length_add_ids length_faq_data_ab
        simp flip: length_0_conv)

lemma index_ok_zq: "index_ok index_zero_question (length [3::real, 4])"
  by (auto simp: index_ok_def index_zero_question_def distinct_ids_add_ids length_add_ids
        length_faq_data_ab simp flip: length_0_conv)

lemma index_ok_za: "index_ok index_zero_answer (length [3::real, 4])"
  by (auto simp: index_ok_def index_zero_answer_def distinct_ids_add_ids length_add_ids
        length_faq_data_ab simp flip: length_0_conv)

lemma index_ok_zf: "index_ok index_zero_first (length [3::real, 4])"
  by (auto simp: index_ok_def index_zero_first_def distinct_ids_add_ids length_add_ids
        length_faq_data_ab simp flip: length_0_conv)

lemma fixed_api_single: "fixed_api [query] = Inr ([3, 4] # [])"
  by (simp add: fixed_api_def)

lemma rs_34_34: "row_similarity [3, 4] [3, 4] = Fin 1"
  and rs_34_43: "row_similarity [3, 4] [4, 3] = Fin (24 / 25)"
  and rs_34_05: "row_similarity [3, 4] [0, 5] = Fin (4 / 5)"
  and rs_34_00: "row_similarity [3, 4] [0, 0] = NaN"
  by (simp_all add: row_similarity_def np_norm_34 np_norm_43 np_norm_05 np_norm_00 np_div_vec_def
      np_div_def np_dot_def)

lemma cos_34_34: "cosine_similarity [3, 4] [3, 4] = Inr (Fin 1)"
  and cos_34_43: "cosine_similarity [3, 4] [4, 3] = Inr (Fin (24 / 25))"
  and cos_34_05: "cosine_similarity [3, 4] [0, 5] = Inr (Fin (4 / 5))"
  and cos_34_00: "cosine_similarity [3, 4] [0, 0] = Inr NaN"
  by (simp_all add: cosine_similarity_def np_norm_34 np_norm_43 np_norm_05 np_norm_00 np_div_def
      dot_real_def)

text \<open>
  A regular index: the second record has the greater score \<open>24/25\<close> and comes first;
  \<open>limit = 1\<close> keeps it alone.
\<close>

lemma search_index_ab:
  assumes "sort_contract list_sort"
  shows "faq_search list_sort fixed_api index_ab query 1 = Inr [result_b (Fin (24 / 25))]"
proof -
  have "faq_search list_sort fixed_api index_ab query 1 =
           Inr (py_slice_to (list_sort
                  (map (\<lambda>j. to_result (fs_faqs index_ab ! j,
                          py_max (row_similarity [3, 4] (fs_question_embeddings index_ab ! j))
                                 (row_similarity [3, 4] (fs_answer_embeddings index_ab ! j))))
                       [0..<length (fs_faqs index_ab)])) 1)"
    by (rule faq_search_merged [where others = "[]" and qe = "[3, 4]" and api = fixed_api
          and list_sort = list_sort,
          OF index_ok_ab fixed_api_single])
  also have "length (fs_faqs index_ab) = Suc (Suc 0)"
    by (simp add: index_ab_def length_add_ids faq_data_ab_def)
  finally have "faq_search list_sort fixed_api index_ab query 1 =
      Inr (py_slice_to (list_sort [result_a (Fin (4 / 5)), result_b (Fin (24 / 25))]) 1)"
    by (simp add: index_ab_def add_ids_ab rs_34_43 rs_34_05 py_max_def to_result_def
        result_a_def result_b_def upt_rec)
  moreover have "list_sort [result_a (Fin (4 / 5)), result_b (Fin (24 / 25))]
      = stable_sort_desc [result_a (Fin (4 / 5)), result_b (Fin (24 / 25))]"
    using assms by (simp add: sort_contract_def result_a_def result_b_def)
  moreover have "stable_sort_desc [result_a (Fin (4 / 5)), result_b (Fin (24 / 25))]
      = [result_b (Fin (24 / 25)), result_a (Fin (4 / 5))]"
    by (simp add: stable_sort_desc_def np_lt_def result_a_def result_b_def)
  ultimately show ?thesis by (simp add: py_slice_to_def)
qed

text \<open>
  One record whose question embedding is the zero vector: its score is NaN, although its
  answer embedding is the query's. One record whose answer embedding is the zero vector:
  its score is \<open>24/25\<close>, the similarity of its question. Neither is 0.
\<close>

lemma search_index_zero_question:
  assumes "sort_permutes list_sort"
  shows "faq_search list_sort fixed_api index_zero_question query 5 = Inr [result_a NaN]"
proof -
  have "faq_search list_sort fixed_api index_zero_question query 5 =
           Inr (py_slice_to (list_sort
                  (map (\<lambda>j. to_result (fs_faqs index_zero_question ! j,
                          py_max (row_similarity [3, 4] (fs_question_embeddings index_zero_question ! j))
                                 (row_similarity [3, 4] (fs_answer_embeddings index_zero_question ! j))))
                       [0..<length (fs_faqs index_zero_question)])) 5)"
    by (rule faq_search_merged [where others = "[]" and qe = "[3, 4]" and api = fixed_api
          and list_sort = list_sort,
          OF index_ok_zq fixed_api_single])
  also have "length (fs_faqs index_zero_question) = Suc 0"
    by (simp add: index_zero_question_def length_add_ids length_faq_data_ab)
  finally show ?thesis
    by (simp add: index_zero_question_def add_ids_a rs_34_34 rs_34_00 py_max_def to_result_def
        result_a_def sort_permutes_single [OF assms] py_slice_to_def)
qed

lemma search_index_zero_answer:
  assumes "sort_permutes list_sort"
  shows "faq_search list_sort fixed_api index_zero_answer query 5 = Inr [result_a (Fin (24 / 25))]"
proof -
  have "faq_search list_sort fixed_api index_zero_answer query 5 =
           Inr (py_slice_to (list_sort
                  (map (\<lambda>j. to_result (fs_faqs index_zero_answer ! j,
                          py_max (row_similarity [3, 4] (fs_question_embeddings index_zero_answer ! j))
                                 (row_similarity [3, 4] (fs_answer_embeddings index_zero_answer ! j))))
                       [0..<length (fs_faqs index_zero_answer)])) 5)"
    by (rule faq_search_merged [where others = "[]" and qe = "[3, 4]" and api = fixed_api
          and list_sort = list_sort,
          OF index_ok_za fixed_api_single])
  also have "length (fs_faqs index_zero_answer) = Suc 0"
    by (simp add: index_zero_answer_def length_add_ids length_faq_data_ab)
  finally show ?thesis
    by (simp add: index_zero_answer_def add_ids_a rs_34_43 rs_34_00 py_max_def to_result_def
        result_a_def sort_permutes_single [OF assms] py_slice_to_def)
qed

text \<open>
  Two records, the first with the zero vector as question embedding and the query's own
  vector as answer embedding. Whatever \<open>list.sort\<close> does, the merged list it is given is
  the first record with NaN, then the second with \<open>24/25\<close>. When \<open>list.sort\<close> leaves
  this list as it is, which is what insertion by \<open><\<close> does (no comparison with NaN is
  true), \<open>limit = 1\<close> returns the record with the score NaN and drops the other.
\<close>

lemma merged_index_zero_first:
  "faq_search list_sort fixed_api index_zero_first query limit =
     Inr (py_slice_to (list_sort [result_a NaN, result_b (Fin (24 / 25))]) limit)"
proof -
  have "faq_search list_sort fixed_api index_zero_first query limit =
           Inr (py_slice_to (list_sort
                  (map (\<lambda>j. to_result (fs_faqs index_zero_first ! j,
                          py_max (row_similarity [3, 4] (fs_question_embeddings index_zero_first ! j))
                                 (row_similarity [3, 4] (fs_answer_embeddings index_zero_first ! j))))
                       [0..<length (fs_faqs index_zero_first)])) limit)"
    by (rule faq_search_merged [where others = "[]" and qe = "[3, 4]" and api = fixed_api
          and list_sort = list_sort,
          OF index_ok_zf fixed_api_single])
  also have "length (fs_faqs index_zero_first) = Suc (Suc 0)"
    by (simp add: index_zero_first_def length_add_ids faq_data_ab_def)
  finally show ?thesis
    by (simp add: index_zero_first_def add_ids_ab rs_34_34 rs_34_43 rs_34_05 rs_34_00 py_max_def
        to_result_def result_a_def result_b_def upt_rec)
qed

lemma stable_sort_desc_nan_first:
  "stable_sort_desc [result_a NaN, result_b (Fin (24 / 25))]
     = [result_a NaN, result_b (Fin (24 / 25))]"
  by (simp add: stable_sort_desc_def np_lt_def result_a_def result_b_def)

lemma search_index_zero_first:
  "faq_search stable_sort_desc fixed_api index_zero_first query 2
     = Inr [result_a NaN, result_b (Fin (24 / 25))]"
  "faq_search stable_sort_desc fixed_api index_zero_first query 1 = Inr [result_a NaN]"
  by (simp_all add: merged_index_zero_first stable_sort_desc_nan_first py_slice_to_def)

theorem search_not_highest_first_witness:
  "index_ok index_zero_first (length [3::real, 4])
   \<and> sort_permutes stable_sort_desc
   \<and> np_norm (fs_question_embeddings index_zero_first ! 0) = 0
   \<and> cosine_similarity [3, 4] (fs_answer_embeddings index_zero_first ! 0) = Inr (Fin 1)
   \<and> faq_search stable_sort_desc fixed_api index_zero_first ''transfer ownership'' 2
       = Inr [result_a NaN, result_b (Fin (24 / 25))]
   \<and> \<not> highest_first [result_a NaN, result_b (Fin (24 / 25))]
   \<and> faq_service_init fixed_api [] Absent =
       Inr (empty_index,
            Content (JObject [(''questions'', tolist []), (''answers'', tolist []),
                              (''metadata'', JArray [])]))
   \<and> faq_search stable_sort_desc fixed_api empty_index ''transfer ownership'' 2 =
       Inl (AxisError ''axis 1 is out of bounds for array of dimension 1'')"
proof -
  have d: "[3, 4::real] \<noteq> []" by simp
  have l: "length (fs_faqs index_zero_first) = 2"
    by (simp add: index_zero_first_def length_add_ids length_faq_data_ab)
  have i: "0 < length (fs_faqs index_zero_first)" and two: "2 \<le> length (fs_faqs index_zero_first)"
    and lim: "int (length (fs_faqs index_zero_first)) \<le> 2"
    by (simp_all add: l)
  have z: "np_norm (fs_question_embeddings index_zero_first ! 0) = 0"
    by (simp add: index_zero_first_def np_norm_00)
  have c: "cosine_similarity [3, 4] (fs_answer_embeddings index_zero_first ! 0) = Inr (Fin 1)"
    by (simp add: index_zero_first_def cos_34_34)
  note t = search_not_highest_first [where api = fixed_api and others = "[]" and limit = 2
      and list_sort = stable_sort_desc and i = 0,
      OF index_ok_zf fixed_api_single d sort_permutes_stable_sort_desc i z two lim,
      of "''transfer ownership''"]
  from t obtain results where
    r: "faq_search stable_sort_desc fixed_api index_zero_first ''transfer ownership'' 2 = Inr results"
    and u: "\<not> highest_first results"
    by blast
  from r have "results = [result_a NaN, result_b (Fin (24 / 25))]"
    by (simp add: search_index_zero_first(1))
  with u have n: "\<not> highest_first [result_a NaN, result_b (Fin (24 / 25))]" by simp
  from t have e: "faq_service_init fixed_api [] Absent =
       Inr (empty_index,
            Content (JObject [(''questions'', tolist []), (''answers'', tolist []),
                              (''metadata'', JArray [])]))"
    and f: "faq_search stable_sort_desc fixed_api empty_index ''transfer ownership'' 2 =
       Inl (AxisError ''axis 1 is out of bounds for array of dimension 1'')"
    by blast+
  from index_ok_zf sort_permutes_stable_sort_desc z c search_index_zero_first(1) n e f
  show ?thesis by blast
qed

theorem zero_norm_scores_witness:
  "index_ok index_zero_question (length [3::real, 4])
   \<and> np_norm (fs_question_embeddings index_zero_question ! 0) = 0
   \<and> (\<exists>merged. length merged = 1
       \<and> faq_search stable_sort_desc fixed_api index_zero_question ''transfer ownership'' 5
           = Inr (py_slice_to (stable_sort_desc merged) 5)
       \<and> r_id (merged ! 0) = ''0'' \<and> r_score (merged ! 0) = NaN)
   \<and> cosine_similarity [3, 4] [0, 0] = Inr NaN
   \<and> faq_search stable_sort_desc fixed_api index_zero_question ''transfer ownership'' 5
       = Inr [result_a NaN]
   \<and> NaN \<noteq> Fin 0
   \<and> index_ok index_zero_answer (length [3::real, 4])
   \<and> np_norm (fs_answer_embeddings index_zero_answer ! 0) = 0
   \<and> (\<exists>merged. length merged = 1
       \<and> faq_search stable_sort_desc fixed_api index_zero_answer ''transfer ownership'' 5
           = Inr (py_slice_to (stable_sort_desc merged) 5)
       \<and> r_id (merged ! 0) = ''0''
       \<and> cosine_similarity [3, 4] [4, 3] = Inr (r_score (merged ! 0))
       \<and> r_score (merged ! 0) \<noteq> NaN)
   \<and> faq_search stable_sort_desc fixed_api index_zero_answer ''transfer ownership'' 5
       = Inr [result_a (Fin (24 / 25))]
   \<and> Fin (24 / 25) \<noteq> Fin 0"
proof -
  have d: "[3, 4::real] \<noteq> []" by simp
  have lq: "length (fs_faqs index_zero_question) = 1"
    by (simp add: index_zero_question_def length_add_ids length_faq_data_ab)
  have la: "length (fs_faqs index_zero_answer) = 1"
    by (simp add: index_zero_answer_def length_add_ids length_faq_data_ab)
  have zq: "np_norm (fs_question_embeddings index_zero_question ! 0) = 0"
    by (simp add: index_zero_question_def np_norm_00)
  have za: "np_norm (fs_answer_embeddings index_zero_answer ! 0) = 0"
    by (simp add: index_zero_answer_def np_norm_00)
  from zero_norm_scores [where api = fixed_api and others = "[]" and limit = 5
      and list_sort = stable_sort_desc,
      OF index_ok_zq fixed_api_single d, of "''transfer ownership''"]
  obtain m1 where 1: "length m1 = length (fs_faqs index_zero_question)"
    "faq_search stable_sort_desc fixed_api index_zero_question ''transfer ownership'' 5
           = Inr (py_slice_to (stable_sort_desc m1) 5)"
    "\<forall>i < length (fs_faqs index_zero_question).
           r_id (m1 ! i) = faq_id (fs_faqs index_zero_question ! i)
         \<and> (np_norm (fs_question_embeddings index_zero_question ! i) = 0 \<or> np_norm [3, 4] = 0
              \<longrightarrow> r_score (m1 ! i) = NaN)"
    by blast
  from 1(3) lq have "r_id (m1 ! 0) = ''0'' \<and> r_score (m1 ! 0) = NaN"
    by (simp add: index_zero_question_def add_ids_a np_norm_00)
  with 1(1,2) lq have A: "\<exists>merged. length merged = 1
       \<and> faq_search stable_sort_desc fixed_api index_zero_question ''transfer ownership'' 5
           = Inr (py_slice_to (stable_sort_desc merged) 5)
       \<and> r_id (merged ! 0) = ''0'' \<and> r_score (merged ! 0) = NaN"
    by auto
  from zero_norm_scores [where api = fixed_api and others = "[]" and limit = 5
      and list_sort = stable_sort_desc,
      OF index_ok_za fixed_api_single d, of "''transfer ownership''"]
  obtain m2 where 2: "length m2 = length (fs_faqs index_zero_answer)"
    "faq_search stable_sort_desc fixed_api index_zero_answer ''transfer ownership'' 5
           = Inr (py_slice_to (stable_sort_desc m2) 5)"
    "\<forall>i < length (fs_faqs index_zero_answer).
           r_id (m2 ! i) = faq_id (fs_faqs index_zero_answer ! i)
         \<and> (np_norm (fs_question_embeddings index_zero_answer ! i) \<noteq> 0 \<and> np_norm [3, 4] \<noteq> 0
              \<and> np_norm (fs_answer_embeddings index_zero_answer ! i) = 0
              \<longrightarrow> cosine_similarity [3, 4] (fs_question_embeddings index_zero_answer ! i)
                    = Inr (r_score (m2 ! i))
                  \<and> r_score (m2 ! i) \<noteq> NaN)"
    by blast
  from 2(3) la have "r_id (m2 ! 0) = ''0''
       \<and> cosine_similarity [3, 4] [4, 3] = Inr (r_score (m2 ! 0))
       \<and> r_score (m2 ! 0) \<noteq> NaN"
    by (simp add: index_zero_answer_def add_ids_a np_norm_00 np_norm_34 np_norm_43)
  with 2(1,2) la have B: "\<exists>merged. length merged = 1
       \<and> faq_search stable_sort_desc fixed_api index_zero_answer ''transfer ownership'' 5
           = Inr (py_slice_to (stable_sort_desc merged) 5)
       \<and> r_id (merged ! 0) = ''0''
       \<and> cosine_similarity [3, 4] [4, 3] = Inr (r_score (merged ! 0))
       \<and> r_score (merged ! 0) \<noteq> NaN"
    by auto
  have C: "faq_search stable_sort_desc fixed_api index_zero_question ''transfer ownership'' 5
       = Inr [result_a NaN]"
    using sort_permutes_stable_sort_desc by (rule search_index_zero_question)
  have D: "faq_search stable_sort_desc fixed_api index_zero_answer ''transfer ownership'' 5
       = Inr [result_a (Fin (24 / 25))]"
    using sort_permutes_stable_sort_desc by (rule search_index_zero_answer)
  have E: "NaN \<noteq> Fin 0" and F: "Fin (24 / 25) \<noteq> Fin 0" by simp_all
  from index_ok_zq zq A cos_34_00 C E index_ok_za za B D F show ?thesis by blast
qed

section \<open>Validation of the categorical filters\<close>

lemma validate_filter_value_conv:
  "validate_filter_value lower extract filter_name value available =
     (if lower value \<in> set (map lower available) then Inr ()
      else Inl (InvalidFilterError filter_name value (suggestions_for extract value available)))"
  by (simp add: validate_filter_value_def suggestions_for_def Let_def)

lemma sort_empty_iff: "sort xs = [] \<longleftrightarrow> xs = []"
  by (metis length_sort length_0_conv)

lemma suggestions_subset:
  assumes "\<And>query choices limit. fst ` set (extract query choices limit) \<subseteq> set choices"
  shows "set (suggestions_for extract value available) \<subseteq> set available"
proof -
  have "set (map fst (filter (\<lambda>s. snd s > 60) (extract value available 5))) \<subseteq> set available"
    using assms [of "value" available 5] by auto
  moreover have "set (take 5 (sort available)) \<subseteq> set available"
    by (metis set_sort set_take_subset)
  ultimately show ?thesis by (simp add: suggestions_for_def Let_def)
qed

lemma suggestions_empty_iff:
  assumes "\<And>query choices limit. fst ` set (extract query choices limit) \<subseteq> set choices"
  shows "suggestions_for extract value available = [] \<longleftrightarrow> available = []"
proof
  assume "suggestions_for extract value available = []"
  then show "available = []"
    by (simp add: suggestions_for_def Let_def sort_empty_iff split: if_splits)
next
  assume e: "available = []"
  have "set (suggestions_for extract value available) \<subseteq> set available"
    using assms by (rule suggestions_subset)
  with e show "suggestions_for extract value available = []" by simp
qed

lemma validate_all_none_rejected:
  "find (rejected lower) checks = None \<Longrightarrow> validate_all lower extract checks = Inr ()"
proof (induction checks)
  case Nil
  then show ?case by simp
next
  case (Cons c checks)
  obtain name v avail where c: "c = (name, v, avail)" by (cases c) auto
  from Cons show ?case
    by (auto simp: c rejected_def validate_given_def validate_filter_value_conv
        split: option.splits if_splits)
qed

lemma validate_all_first_rejected:
  "find (rejected lower) checks = Some (filter_name, Some value, available) \<Longrightarrow>
   validate_all lower extract checks
     = Inl (InvalidFilterError filter_name value (suggestions_for extract value available))"
proof (induction checks)
  case Nil
  then show ?case by simp
next
  case (Cons c checks)
  obtain name v avail where c: "c = (name, v, avail)" by (cases c) auto
  show ?case
  proof (cases "rejected lower c")
    case True
    with Cons.prems have "c = (filter_name, Some value, available)" by simp
    with True show ?thesis
      by (simp add: rejected_def validate_given_def validate_filter_value_conv)
  next
    case False
    with Cons.prems have f: "find (rejected lower) checks = Some (filter_name, Some value, available)"
      by simp
    from False have "validate_given lower extract c = Inr ()"
      by (auto simp: c rejected_def validate_given_def validate_filter_value_conv split: option.splits)
    with Cons.IH [OF f] show ?thesis by simp
  qed
qed

lemma find_rejected_shape:
  "find (rejected lower) checks = Some c \<Longrightarrow> \<exists>filter_name value available. c = (filter_name, Some value, available)"
proof -
  assume "find (rejected lower) checks = Some c"
  then have "rejected lower c" by (auto simp: find_Some_iff)
  then show ?thesis by (cases c) (auto simp: rejected_def split: option.splits)
qed

text \<open>
  C8, as the code has it. A categorical filter value that matches an available value,
  ignoring case, passes; one that matches none makes \<open>_validate_filter_value\<close> raise
  an \<open>InvalidFilterError\<close> with the filter name, the value, and as suggestions the
  choices \<open>process.extract\<close> scores above 60 or, when there is none, the first five
  available values in sorted order. Provided \<open>process.extract\<close> returns only choices
  it was given, the suggestions are available values, and they are empty exactly when the
  filter has no available value. \<open>list_cars\<close> and \<open>search\<close> check brand, body
  type, fuel type and transmission in this order: they raise the error of the first
  rejected filter, and go on to the sort parameters when no filter is rejected.
\<close>

theorem invalid_filter_error:
  assumes contract: "\<And>query choices limit. fst ` set (extract query choices limit) \<subseteq> set choices"
  shows "(lower value \<in> set (map lower available) \<longrightarrow>
            validate_filter_value lower extract filter_name value available = Inr ())
       \<and> (lower value \<notin> set (map lower available) \<longrightarrow>
            validate_filter_value lower extract filter_name value available
              = Inl (InvalidFilterError filter_name value (suggestions_for extract value available)))
       \<and> set (suggestions_for extract value available) \<subseteq> set available
       \<and> (suggestions_for extract value available = [] \<longleftrightarrow> available = [])
       \<and> (find (rejected lower) (filter_checks svc q) = None \<longrightarrow>
            list_cars lower extract select svc q
              = (case validate_sort q of Inl e \<Rightarrow> Inl e | Inr u \<Rightarrow> select svc q)
          \<and> search_cars lower extract select' svc query q
              = (case validate_sort q of Inl e \<Rightarrow> Inl e | Inr u \<Rightarrow> select' svc query q))
       \<and> (\<forall>name v avail. find (rejected lower) (filter_checks svc q) = Some (name, Some v, avail) \<longrightarrow>
            list_cars lower extract select svc q
              = Inl (InvalidFilterError name v (suggestions_for extract v avail))
          \<and> search_cars lower extract select' svc query q
              = Inl (InvalidFilterError name v (suggestions_for extract v avail)))"
proof -
  have s: "set (suggestions_for extract value available) \<subseteq> set available"
    using contract by (rule suggestions_subset)
  have e: "suggestions_for extract value available = [] \<longleftrightarrow> available = []"
    using contract by (rule suggestions_empty_iff)
  show ?thesis
    using s e
    by (auto simp: validate_filter_value_conv list_cars_def search_cars_def
        validate_all_none_rejected validate_all_first_rejected)
qed

lemma tool_get_car_details_text:
  "\<exists>text. tool_get_car_details lower extract view serialize svc car_id = Inr text"
  by (simp add: tool_get_car_details_def split: sum.splits)

lemma tool_get_extended_car_details_text:
  "\<exists>text. tool_get_extended_car_details lower extract serialize svc car_id = Inr text"
  by (simp add: tool_get_extended_car_details_def split: sum.splits)

lemma tool_list_cars_text:
  "\<exists>text. tool_list_cars lower extract select serialize svc q = Inr text"
  by (simp add: tool_list_cars_def split: sum.splits)

lemma tool_search_car_text:
  "\<exists>text. tool_search_car lower extract select' serialize svc query q = Inr text"
  by (simp add: tool_search_car_def split: sum.splits)

lemma exists_rejected_find:
  assumes "\<exists>check \<in> set checks. rejected lower check"
  shows "\<exists>filter_name value available. find (rejected lower) checks = Some (filter_name, Some value, available)"
proof -
  from assms obtain c where "find (rejected lower) checks = Some c"
    by (cases "find (rejected lower) checks") (auto simp: find_None_iff)
  with find_rejected_shape [of lower checks c] show ?thesis by auto
qed

text \<open>
  C9. The tools \<open>get_car_details\<close>, \<open>get_extended_car_details\<close>, \<open>list_cars\<close> and
  \<open>search_car\<close> return a text on every input, whatever the catalogue, the
  serializer and the rest of the service do or raise. For a car identifier that is not
  a key of the catalogue (after lower-casing) the text begins with \<open>Car not found:\<close>,
  and when a given categorical filter is rejected the text begins with
  \<open>Filter error:\<close>.
\<close>

theorem tools_return_text:
  "(\<exists>text. tool_get_car_details lower extract view serialize svc car_id = Inr text)
   \<and> (\<exists>text. tool_get_extended_car_details lower extract serialize svc car_id = Inr text)
   \<and> (\<exists>text. tool_list_cars lower extract select serialize svc q = Inr text)
   \<and> (\<exists>text. tool_search_car lower extract select' serialize svc query q = Inr text)
   \<and> (dict_get (cs_cars svc) (lower car_id) = None \<longrightarrow>
        (\<exists>rest. tool_get_car_details lower extract view serialize svc car_id
                   = Inr (''Car not found: '' @ rest))
      \<and> (\<exists>rest. tool_get_extended_car_details lower extract serialize svc car_id
                   = Inr (''Car not found: '' @ rest)))
   \<and> ((\<exists>check \<in> set (filter_checks svc q). rejected lower check) \<longrightarrow>
        (\<exists>rest. tool_list_cars lower extract select serialize svc q
                   = Inr (''Filter error: '' @ rest))
      \<and> (\<exists>rest. tool_search_car lower extract select' serialize svc query q
                   = Inr (''Filter error: '' @ rest)))"
proof -
  have nf: "dict_get (cs_cars svc) (lower car_id) = None \<longrightarrow>
        (\<exists>rest. tool_get_car_details lower extract view serialize svc car_id
                   = Inr (''Car not found: '' @ rest))
      \<and> (\<exists>rest. tool_get_extended_car_details lower extract serialize svc car_id
                   = Inr (''Car not found: '' @ rest))"
    by (simp add: tool_get_car_details_def tool_get_extended_car_details_def get_car_details_def
        get_extended_car_details_def car_not_found_def Let_def)
  have fe: "(\<exists>check \<in> set (filter_checks svc q). rejected lower check) \<longrightarrow>
        (\<exists>rest. tool_list_cars lower extract select serialize svc q
                   = Inr (''Filter error: '' @ rest))
      \<and> (\<exists>rest. tool_search_car lower extract select' serialize svc query q
                   = Inr (''Filter error: '' @ rest))"
  proof
    assume r: "\<exists>check \<in> set (filter_checks svc q). rejected lower check"
    from exists_rejected_find [OF r] obtain filter_name val available
      where "find (rejected lower) (filter_checks svc q) = Some (filter_name, Some val, available)"
      by blast
    then have v: "validate_all lower extract (filter_checks svc q)
        = Inl (InvalidFilterError filter_name val (suggestions_for extract val available))"
      by (rule validate_all_first_rejected)
    show "(\<exists>rest. tool_list_cars lower extract select serialize svc q
                   = Inr (''Filter error: '' @ rest))
      \<and> (\<exists>rest. tool_search_car lower extract select' serialize svc query q
                   = Inr (''Filter error: '' @ rest))"
      by (simp add: tool_list_cars_def tool_search_car_def list_cars_def search_cars_def v)
  qed
  show ?thesis
    by (intro conjI nf fe tool_get_car_details_text tool_get_extended_car_details_text
        tool_list_cars_text tool_search_car_text)
qed

section \<open>The catalogue on a small example\<close>

lemma extract_scoring_contract: "fst ` set (extract_scoring score query choices limit) \<subseteq> set choices"
  by (auto simp: extract_scoring_def dest: in_set_takeD)

lemma checks_tesla:
  "filter_checks demo_cars (demo_query\<lparr>q_brand := Some ''Tesla''\<rparr>)
     = [(''brand'', Some ''Tesla'', [''Mahindra'']), (''body_type'', None, [''SUV'']),
        (''fuel_type'', None, [''Petrol'', ''Diesel'']), (''transmission'', None, [])]"
  by (simp add: filter_checks_def demo_cars_def demo_query_def)

lemma checks_suv:
  "filter_checks demo_cars (demo_query\<lparr>q_body_type := Some ''suv''\<rparr>)
     = [(''brand'', None, [''Mahindra'']), (''body_type'', Some ''suv'', [''SUV'']),
        (''fuel_type'', None, [''Petrol'', ''Diesel'']), (''transmission'', None, [])]"
  by (simp add: filter_checks_def demo_cars_def demo_query_def)

lemma checks_manual:
  "filter_checks demo_cars (demo_query\<lparr>q_transmission := Some ''Manual''\<rparr>)
     = [(''brand'', None, [''Mahindra'']), (''body_type'', None, [''SUV'']),
        (''fuel_type'', None, [''Petrol'', ''Diesel'']), (''transmission'', Some ''Manual'', [])]"
  by (simp add: filter_checks_def demo_cars_def demo_query_def)

lemma find_tesla:
  "find (rejected ascii_lower) (filter_checks demo_cars (demo_query\<lparr>q_brand := Some ''Tesla''\<rparr>))
     = Some (''brand'', Some ''Tesla'', [''Mahindra''])"
  by (simp add: checks_tesla rejected_def ascii_lower_def)

lemma find_suv:
  "find (rejected ascii_lower) (filter_checks demo_cars (demo_query\<lparr>q_body_type := Some ''suv''\<rparr>))
     = None"
  by (simp add: checks_suv rejected_def ascii_lower_def)

lemma validate_sort_demo: "validate_sort (demo_query\<lparr>q_body_type := Some ''suv''\<rparr>) = Inr ()"
  by (simp add: validate_sort_def demo_query_def)

lemma select_all_demo: "select_all demo_cars q = Inr [''Mahindra Thar'', ''Mahindra XUV700'']"
  by (simp add: select_all_def demo_cars_def)

theorem invalid_filter_error_witness:
  "validate_filter_value ascii_lower (extract_scoring 90) ''body_type'' ''suv'' [''SUV''] = Inr ()
   \<and> validate_filter_value ascii_lower (extract_scoring 90) ''brand'' ''Tesla'' [''Mahindra'']
       = Inl (InvalidFilterError ''brand'' ''Tesla'' [''Mahindra''])
   \<and> list_cars ascii_lower (extract_scoring 90) select_all demo_cars
         (demo_query\<lparr>q_body_type := Some ''suv''\<rparr>)
       = Inr [''Mahindra Thar'', ''Mahindra XUV700'']
   \<and> list_cars ascii_lower (extract_scoring 90) select_all demo_cars
         (demo_query\<lparr>q_brand := Some ''Tesla''\<rparr>)
       = Inl (InvalidFilterError ''brand'' ''Tesla'' [''Mahindra''])"
proof -
  have s: "suggestions_for (extract_scoring 90) ''Tesla'' [''Mahindra''] = [''Mahindra'']"
    by (simp add: suggestions_for_def extract_scoring_def)
  from invalid_filter_error [of "extract_scoring 90" ascii_lower "''suv''" "[''SUV'']" "''body_type''"
      demo_cars "demo_query\<lparr>q_body_type := Some ''suv''\<rparr>" select_all
      "\<lambda>svc query q. select_all svc q" "[]", OF extract_scoring_contract]
  have 1: "validate_filter_value ascii_lower (extract_scoring 90) ''body_type'' ''suv'' [''SUV''] = Inr ()"
    and 3: "list_cars ascii_lower (extract_scoring 90) select_all demo_cars
         (demo_query\<lparr>q_body_type := Some ''suv''\<rparr>)
       = Inr [''Mahindra Thar'', ''Mahindra XUV700'']"
    by (simp_all add: find_suv validate_sort_demo select_all_demo ascii_lower_def)
  from invalid_filter_error [of "extract_scoring 90" ascii_lower "''Tesla''" "[''Mahindra'']" "''brand''"
      demo_cars "demo_query\<lparr>q_brand := Some ''Tesla''\<rparr>" select_all
      "\<lambda>svc query q. select_all svc q" "[]", OF extract_scoring_contract]
  have 2: "validate_filter_value ascii_lower (extract_scoring 90) ''brand'' ''Tesla'' [''Mahindra'']
       = Inl (InvalidFilterError ''brand'' ''Tesla'' [''Mahindra''])"
    and 4: "list_cars ascii_lower (extract_scoring 90) select_all demo_cars
         (demo_query\<lparr>q_brand := Some ''Tesla''\<rparr>)
       = Inl (InvalidFilterError ''brand'' ''Tesla'' [''Mahindra''])"
    by (simp_all add: find_tesla s ascii_lower_def)
  from 1 2 3 4 show ?thesis by simp
qed

text \<open>
  No car of \<open>demo_cars\<close> states a transmission: the error for a transmission filter
  carries no suggestion at all. And with a scorer that finds nothing similar, the error
  for an unknown brand suggests the available brand although its score is 0.
\<close>

theorem empty_suggestions_counterexample:
  "cs_available_transmissions demo_cars = []
   \<and> list_cars ascii_lower (extract_scoring 0) select_all demo_cars
         (demo_query\<lparr>q_transmission := Some ''Manual''\<rparr>)
       = Inl (InvalidFilterError ''transmission'' ''Manual'' [])
   \<and> extract_scoring 0 ''Tesla'' (cs_available_brands demo_cars) 5 = [(''Mahindra'', 0)]
   \<and> list_cars ascii_lower (extract_scoring 0) select_all demo_cars
         (demo_query\<lparr>q_brand := Some ''Tesla''\<rparr>)
       = Inl (InvalidFilterError ''brand'' ''Tesla'' [''Mahindra''])"
proof -
  have 1: "cs_available_transmissions demo_cars = []"
    and 3: "extract_scoring 0 ''Tesla'' (cs_available_brands demo_cars) 5 = [(''Mahindra'', 0)]"
    by (simp_all add: demo_cars_def extract_scoring_def)
  have 2: "list_cars ascii_lower (extract_scoring 0) select_all demo_cars
         (demo_query\<lparr>q_transmission := Some ''Manual''\<rparr>)
       = Inl (InvalidFilterError ''transmission'' ''Manual'' [])"
    by (simp add: list_cars_def checks_manual validate_given_def validate_filter_value_def
        extract_scoring_def)
  have 4: "list_cars ascii_lower (extract_scoring 0) select_all demo_cars
         (demo_query\<lparr>q_brand := Some ''Tesla''\<rparr>)
       = Inl (InvalidFilterError ''brand'' ''Tesla'' [''Mahindra''])"
    by (simp add: list_cars_def checks_tesla validate_given_def validate_filter_value_def
        extract_scoring_def ascii_lower_def)
  from 1 2 3 4 show ?thesis by simp
qed

theorem tools_return_text_witness:
  "tool_get_car_details ascii_lower (extract_scoring 90) id serialize_name demo_cars ''Tesla_Model_S''
     = Inr (''Car not found: Car '' @ sq @ ''Tesla_Model_S'' @ sq @ '' not found.'' @ nl
            @ ''Did you mean one of these?'' @ nl
            @ ''  1. mahindra_thar'' @ nl @ ''  2. mahindra_xuv700'')
   \<and> tool_list_cars ascii_lower (extract_scoring 90) select_all serialize_name demo_cars
         (demo_query\<lparr>q_brand := Some ''Tesla''\<rparr>)
     = Inr (''Filter error: Invalid brand: '' @ sq @ ''Tesla'' @ sq @ nl
            @ ''Did you mean one of these?'' @ nl @ ''  1. Mahindra'' @ nl)"
proof -
  have n: "dict_get (cs_cars demo_cars) (ascii_lower ''Tesla_Model_S'') = None"
    by (simp add: demo_cars_def dict_get_def ascii_lower_def)
  have r: "\<exists>check \<in> set (filter_checks demo_cars (demo_query\<lparr>q_brand := Some ''Tesla''\<rparr>)).
             rejected ascii_lower check"
    by (simp add: checks_tesla rejected_def ascii_lower_def)
  note t = tools_return_text [of ascii_lower "extract_scoring 90" id serialize_name demo_cars
      "''Tesla_Model_S''" select_all "demo_query\<lparr>q_brand := Some ''Tesla''\<rparr>"
      "\<lambda>svc query q. select_all svc q" "[]"]
  from t n obtain rest1 where 1:
    "tool_get_car_details ascii_lower (extract_scoring 90) id serialize_name demo_cars ''Tesla_Model_S''
       = Inr (''Car not found: '' @ rest1)"
    by blast
  from t r obtain rest2 where 2:
    "tool_list_cars ascii_lower (extract_scoring 90) select_all serialize_name demo_cars
         (demo_query\<lparr>q_brand := Some ''Tesla''\<rparr>)
       = Inr (''Filter error: '' @ rest2)"
    by blast
  have s: "str_nat (Suc 0) = ''1''" "str_nat (Suc (Suc 0)) = ''2''"
    by (simp_all add: str_nat.simps digit_char_def)
  have 3: "tool_get_car_details ascii_lower (extract_scoring 90) id serialize_name demo_cars ''Tesla_Model_S''
     = Inr (''Car not found: Car '' @ sq @ ''Tesla_Model_S'' @ sq @ '' not found.'' @ nl
            @ ''Did you mean one of these?'' @ nl
            @ ''  1. mahindra_thar'' @ nl @ ''  2. mahindra_xuv700'')"
    using 1
    by (simp add: tool_get_car_details_def get_car_details_def car_not_found_def dict_get_def
        ascii_lower_def extract_scoring_def demo_cars_def numbered_def s serialize_name_def)
  have 4: "tool_list_cars ascii_lower (extract_scoring 90) select_all serialize_name demo_cars
         (demo_query\<lparr>q_brand := Some ''Tesla''\<rparr>)
     = Inr (''Filter error: Invalid brand: '' @ sq @ ''Tesla'' @ sq @ nl
            @ ''Did you mean one of these?'' @ nl @ ''  1. Mahindra'' @ nl)"
    using 2
    by (simp add: tool_list_cars_def list_cars_def checks_tesla validate_given_def
        validate_filter_value_def extract_scoring_def ascii_lower_def numbered_def s)
  from 3 4 show ?thesis by simp
qed

end
